theory Spec2Isabelle
  imports Main "HOL-Library.Word"
begin

unbundle bit_operations_syntax

section \<open>Strings of the program\<close>

text \<open>
  A JavaScript string is a sequence of 16-bit code units; \<open>s.length\<close>, \<open>s[i]\<close>,
  \<open>startsWith\<close>, \<open>slice\<close>, \<open>split\<close> and \<open>trim\<close> all count and compare code units.
  A chunk of the response body is a \<open>Uint8Array\<close>: a sequence of bytes.
\<close>

type_synonym jschar = "16 word"
type_synonym jsstring = "jschar list"
type_synonym byte = "8 word"

text \<open>An ASCII literal of the source, as code units and as the bytes of its UTF-8 form.\<close>

definition str :: "string \<Rightarrow> jsstring" where
  "str s = map (\<lambda>c. of_nat (of_char c)) s"

definition bytes :: "string \<Rightarrow> byte list" where
  "bytes s = map (\<lambda>c. of_nat (of_char c)) s"

definition nl :: jschar where
  "nl = 0x0A"

text \<open>
  \<open>String.prototype.trim\<close> removes WhiteSpace and LineTerminator code units from both
  ends (ECMA-262: TAB, VT, FF, SP, NBSP, ZWNBSP, the Unicode space separators, LF, CR,
  LS, PS).
\<close>

definition is_space :: "jschar \<Rightarrow> bool" where
  "is_space c \<longleftrightarrow>
     c = 0x09 \<or> c = 0x0A \<or> c = 0x0B \<or> c = 0x0C \<or> c = 0x0D \<or> c = 0x20 \<or> c = 0xA0 \<or>
     c = 0x1680 \<or> (0x2000 \<le> c \<and> c \<le> 0x200A) \<or> c = 0x2028 \<or> c = 0x2029 \<or>
     c = 0x202F \<or> c = 0x205F \<or> c = 0x3000 \<or> c = 0xFEFF"

definition trim :: "jsstring \<Rightarrow> jsstring" where
  "trim s = rev (dropWhile is_space (rev (dropWhile is_space s)))"

text \<open>\<open>s.startsWith(t, pos)\<close>, \<open>s.slice(a, b)\<close> for \<open>0 \<le> a\<close>, \<open>0 \<le> b\<close>, and \<open>s.slice(a)\<close>.\<close>

definition startsWith :: "jsstring \<Rightarrow> jsstring \<Rightarrow> nat \<Rightarrow> bool" where
  "startsWith s t pos \<longleftrightarrow> take (length t) (drop pos s) = t"

definition slice :: "jsstring \<Rightarrow> nat \<Rightarrow> nat \<Rightarrow> jsstring" where
  "slice s a b = take (b - a) (drop a s)"

definition slice_from :: "jsstring \<Rightarrow> nat \<Rightarrow> jsstring" where
  "slice_from s a = drop a s"

text \<open>
  \<open>s.split('\n')\<close>: the pieces between line feeds, in order; never empty (the empty
  string splits into one empty piece).
\<close>

fun split_nl :: "jsstring \<Rightarrow> jsstring list" where
  "split_nl [] = [[]]"
| "split_nl (c # cs) =
     (if c = nl then [] # split_nl cs
      else (case split_nl cs of
              [] \<Rightarrow> [[c]]
            | l # ls \<Rightarrow> (c # l) # ls))"

section \<open>CodeBlockFormatter\<close>

text \<open>
  The formatter's output is a string with the escape codes \<open>chalk\<close> wraps around each
  piece. The model keeps the pieces apart: each is the style \<open>chalk\<close> was asked for and
  the text it was applied to, so that the text without styling codes is the concatenation
  of the second components.
\<close>

datatype style = Yellow | Cyan | Reset

type_synonym styled = "style \<times> jsstring"

definition plain :: "styled list \<Rightarrow> jsstring" where
  "plain out = concat (map snd out)"

record CodeBlockFormatter =
  inCode :: bool
  pending :: jsstring
  currentLang :: jsstring

definition new_CodeBlockFormatter :: CodeBlockFormatter where
  "new_CodeBlockFormatter = \<lparr>inCode = False, pending = [], currentLang = []\<rparr>"

definition fence :: jsstring where
  "fence = [0x60, 0x60, 0x60]"

text \<open>
  The two banners, character for character: a line feed, a box-drawing corner
  (U+250C, U+2514), runs of U+2500, and for the opening banner the word \<open>code\<close> with the
  language in parentheses when it is not empty.
\<close>

definition open_banner :: "jsstring \<Rightarrow> jsstring" where
  "open_banner lang =
     [nl, 0x250C, 0x2500, 0x2500] @ str '' code'' @
     (if lang \<noteq> [] then str '' ('' @ lang @ str '')'' else []) @
     str '' '' @ replicate 25 0x2500 @ [nl]"

definition close_banner :: jsstring where
  "close_banner = [nl, 0x2514] @ replicate 46 0x2500 @ [nl]"

text \<open>The inner loop of the opening branch: \<open>while (j < pending.length && pending[j] !== '\n') j++\<close>.\<close>

function lang_end :: "jsstring \<Rightarrow> nat \<Rightarrow> nat" where
  "lang_end p j = (if j < length p \<and> p ! j \<noteq> nl then lang_end p (j + 1) else j)"
  by pat_completeness auto
termination
  by (relation "measure (\<lambda>(p, j). length p - j)") auto

declare lang_end.simps [simp del]

text \<open>
  The scan of \<open>formatToken\<close>: \<open>p\<close> is \<open>this.pending\<close>, \<open>i\<close> the index, \<open>ic\<close> and \<open>lang\<close>
  the fields \<open>inCode\<close> and \<open>currentLang\<close>, \<open>out\<close> the output so far.
\<close>

function scan :: "jsstring \<Rightarrow> nat \<Rightarrow> bool \<Rightarrow> jsstring \<Rightarrow> styled list \<Rightarrow> bool \<times> jsstring \<times> styled list" where
  "scan p i ic lang out =
     (if i < length p then
        (if startsWith p fence i then
           (if \<not> ic then
              (let j = lang_end p (i + 3);
                   lang' = trim (slice p (i + 3) j);
                   j' = (if j < length p \<and> p ! j = nl then j + 1 else j)
               in scan p j' True lang' (out @ [(Yellow, open_banner lang')]))
            else scan p (i + 3) False [] (out @ [(Yellow, close_banner)]))
         else scan p (i + 1) ic lang (out @ [(if ic then Reset else Cyan, [p ! i])]))
      else (ic, lang, out))"
  by pat_completeness auto
termination
proof (relation "measure (\<lambda>(p, i, ic, lang, out). length p - i)")
  show "wf (measure (\<lambda>(p, i, ic, lang, out). length p - i))" by simp
next
  fix p :: jsstring and i :: nat and ic :: bool and lang :: jsstring and out :: "styled list"
    and j lang' j'
  assume "i < length p" and "j = lang_end p (i + 3)"
    and "j' = (if j < length p \<and> p ! j = nl then j + 1 else j)"
  moreover have "k \<le> lang_end p k" for k
  proof (induction p k rule: lang_end.induct)
    case (1 p k)
    show ?case
    proof (cases "k < length p \<and> p ! k \<noteq> nl")
      case True
      with 1 have "k + 1 \<le> lang_end p (k + 1)" by simp
      moreover from True have "lang_end p k = lang_end p (k + 1)"
        by (subst lang_end.simps) simp
      ultimately show ?thesis by simp
    next
      case False
      then have "lang_end p k = k"
        by (subst lang_end.simps) (simp only: if_False)
      then show ?thesis by simp
    qed
  qed
  then have "i + 3 \<le> lang_end p (i + 3)" .
  ultimately show "((p, j', True, lang', out @ [(Yellow, open_banner lang')]), (p, i, ic, lang, out))
      \<in> measure (\<lambda>(p, i, ic, lang, out). length p - i)"
    by auto
qed auto

declare scan.simps [simp del]

definition formatToken :: "CodeBlockFormatter \<Rightarrow> jsstring \<Rightarrow> styled list \<times> CodeBlockFormatter" where
  "formatToken f token =
     (let p = pending f @ token;
          (ic, lang, out) = scan p 0 (inCode f) (currentLang f) []
      in (out, \<lparr>inCode = ic, pending = [], currentLang = lang\<rparr>))"

text \<open>Feeding deltas in order to one formatter, the outputs concatenated as the terminal sees them.\<close>

fun formatTokens :: "CodeBlockFormatter \<Rightarrow> jsstring list \<Rightarrow> styled list \<times> CodeBlockFormatter" where
  "formatTokens f [] = ([], f)"
| "formatTokens f (t # ts) =
     (let (out, f') = formatToken f t;
          (outs, f'') = formatTokens f' ts
      in (out @ outs, f''))"

section \<open>TextDecoder\<close>

text \<open>
  \<open>new TextDecoder()\<close> decodes UTF-8, replaces malformed input by U+FFFD and drops one
  leading byte order mark. Called with \<open>{stream: true}\<close> it keeps its state between
  calls, so a character cut by a chunk boundary is completed by the next chunk. The
  model is the decoder of the WHATWG Encoding Standard, one byte at a time; the code
  never makes the final call that flushes an incomplete character.
\<close>

record TextDecoder =
  code_point :: nat
  bytes_seen :: nat
  bytes_needed :: nat
  lower_boundary :: byte
  upper_boundary :: byte
  bom_seen :: bool

definition new_TextDecoder :: TextDecoder where
  "new_TextDecoder =
     \<lparr>code_point = 0, bytes_seen = 0, bytes_needed = 0,
      lower_boundary = 0x80, upper_boundary = 0xBF, bom_seen = False\<rparr>"

text \<open>The handler when no character is under way: the byte is a whole character, a lead byte or an error.\<close>

definition utf8_lead :: "TextDecoder \<Rightarrow> byte \<Rightarrow> nat list \<times> TextDecoder" where
  "utf8_lead d b =
     (if b \<le> 0x7F then ([unat b], d)
      else if 0xC2 \<le> b \<and> b \<le> 0xDF then
        ([], d\<lparr>bytes_needed := 1, code_point := unat (b AND 0x1F)\<rparr>)
      else if 0xE0 \<le> b \<and> b \<le> 0xEF then
        ([], d\<lparr>lower_boundary := (if b = 0xE0 then 0xA0 else lower_boundary d),
               upper_boundary := (if b = 0xED then 0x9F else upper_boundary d),
               bytes_needed := 2, code_point := unat (b AND 0x0F)\<rparr>)
      else if 0xF0 \<le> b \<and> b \<le> 0xF4 then
        ([], d\<lparr>lower_boundary := (if b = 0xF0 then 0x90 else lower_boundary d),
               upper_boundary := (if b = 0xF4 then 0x8F else upper_boundary d),
               bytes_needed := 3, code_point := unat (b AND 0x07)\<rparr>)
      else ([0xFFFD], d))"

text \<open>
  The handler for one byte. A byte outside the boundaries ends the character under way
  with an error and is read again as the start of the next one.
\<close>

definition utf8_handler :: "TextDecoder \<Rightarrow> byte \<Rightarrow> nat list \<times> TextDecoder" where
  "utf8_handler d b =
     (if bytes_needed d = 0 then utf8_lead d b
      else if \<not> (lower_boundary d \<le> b \<and> b \<le> upper_boundary d) then
        (let (cps, d') = utf8_lead (d\<lparr>code_point := 0, bytes_needed := 0, bytes_seen := 0,
                                       lower_boundary := 0x80, upper_boundary := 0xBF\<rparr>) b
         in (0xFFFD # cps, d'))
      else
        (let cp = code_point d * 64 + unat (b AND 0x3F);
             d' = d\<lparr>lower_boundary := 0x80, upper_boundary := 0xBF\<rparr>
         in if bytes_seen d + 1 \<noteq> bytes_needed d
            then ([], d'\<lparr>code_point := cp, bytes_seen := bytes_seen d + 1\<rparr>)
            else ([cp], d'\<lparr>code_point := 0, bytes_needed := 0, bytes_seen := 0\<rparr>)))"

text \<open>A code point as UTF-16 code units.\<close>

definition utf16 :: "nat \<Rightarrow> jsstring" where
  "utf16 cp =
     (if cp < 0x10000 then [of_nat cp]
      else [of_nat (0xD800 + (cp - 0x10000) div 0x400), of_nat (0xDC00 + (cp - 0x10000) mod 0x400)])"

text \<open>The decoded code points become output; the first of the stream is dropped when it is U+FEFF.\<close>

fun serialize :: "TextDecoder \<Rightarrow> nat list \<Rightarrow> jsstring \<times> TextDecoder" where
  "serialize d [] = ([], d)"
| "serialize d (cp # cps) =
     (if \<not> bom_seen d \<and> cp = 0xFEFF then serialize (d\<lparr>bom_seen := True\<rparr>) cps
      else (let (t, d') = serialize (d\<lparr>bom_seen := True\<rparr>) cps in (utf16 cp @ t, d')))"

text \<open>\<open>decoder.decode(chunk, {stream: true})\<close>: the text of the chunk and the decoder afterwards.\<close>

fun decode :: "TextDecoder \<Rightarrow> byte list \<Rightarrow> jsstring \<times> TextDecoder" where
  "decode d [] = ([], d)"
| "decode d (b # bs) =
     (let (cps, d1) = utf8_handler d b;
          (t, d2) = serialize d1 cps;
          (ts, d3) = decode d2 bs
      in (t @ ts, d3))"

section \<open>The conversation, the terminal and the network\<close>

datatype role = System | User | Assistant

record message =
  role :: role
  content :: jsstring

text \<open>
  What is written to standard output: text styled by \<open>chalk\<close>, text as it is, the prompt
  of \<open>rl.prompt()\<close>, and the notice \<open>saveSession\<close> prints. What is written to standard
  error: the four messages of the two functions, each with the values it shows.
\<close>

datatype out = Styled style jsstring | Unstyled jsstring | Prompt | SavedNotice

datatype log =
    HttpError int jsstring jsstring
  | RequestFailed int
  | VerboseHint
  | TransientError int nat

text \<open>
  A response of \<open>fetch\<close>: \<open>res.ok\<close>, \<open>res.status\<close>, \<open>res.statusText\<close>, the body as the
  chunks it yields and whether the stream then fails instead of closing, and what
  \<open>res.text()\<close> resolves to (\<open>None\<close> when it rejects). \<open>fetch\<close> itself may reject.
\<close>

record body =
  chunks :: "byte list list"
  aborted :: bool

record response =
  res_ok :: bool
  res_status :: int
  res_statusText :: jsstring
  res_body :: "body option"
  res_text :: "jsstring option"

datatype fetched = Rejected | Response response

datatype error = FetchRejected | BodyRejected | SaveRejected

text \<open>
  The state the two functions read and stdout_write: the global \<open>messages\<close>, the two output
  streams, the request bodies posted so far (each carries the conversation at that
  moment), what the coming calls of \<open>fetch\<close> will meet, the delays slept, the
  conversations saved by \<open>saveSession\<close>, and whether each coming \<open>fs.writeFile\<close> will
  succeed (in order; when the list is used up, writes succeed).
\<close>

record world =
  messages :: "message list"
  stdout :: "out list"
  stderr :: "log list"
  requests :: "message list list"
  network :: "fetched list"
  sleeps :: "nat list"
  sessions :: "message list list"
  disk :: "bool list"

text \<open>
  What the functions read and never stdout_write: \<open>VERBOSE\<close>, \<open>CONFIG.autosave\<close>, and the
  built-in \<open>JSON.parse\<close> followed by the lookup \<open>data.choices?.[0]?.delta?.content || ''\<close>,
  as the function from the payload to the string the code appends (\<open>None\<close> when parsing
  or the lookup throws).
\<close>

record env =
  VERBOSE :: bool
  autosave :: bool
  content_of :: "jsstring \<Rightarrow> jsstring option"

definition stdout_write :: "out list \<Rightarrow> world \<Rightarrow> world" where
  "stdout_write os w = w\<lparr>stdout := stdout w @ os\<rparr>"

definition console_error :: "log \<Rightarrow> world \<Rightarrow> world" where
  "console_error e w = w\<lparr>stderr := stderr w @ [e]\<rparr>"

definition push :: "message \<Rightarrow> world \<Rightarrow> world" where
  "push m w = w\<lparr>messages := messages w @ [m]\<rparr>"

text \<open>
  \<open>saveSession\<close> awaits \<open>fs.writeFile\<close> and then prints its notice. Neither caller
  catches: when the write rejects, the notice is not printed and the caller rejects.
\<close>

definition saveSession :: "world \<Rightarrow> error option \<times> world" where
  "saveSession w =
     (case disk w of
        False # later \<Rightarrow> (Some SaveRejected, w\<lparr>disk := later\<rparr>)
      | _ \<Rightarrow>
          (None, stdout_write [SavedNotice]
                   (w\<lparr>sessions := sessions w @ [messages w], disk := tl (disk w)\<rparr>)))"

definition sleep :: "nat \<Rightarrow> world \<Rightarrow> world" where
  "sleep ms w = w\<lparr>sleeps := sleeps w @ [ms]\<rparr>"

section \<open>streamChatOnce\<close>

text \<open>
  What the loop does with one line (\<open>trim\<close>, the three tests, the parse) decides one of
  three things: the line is a delta, the terminator, or is passed over.
\<close>

datatype frame = Delta jsstring | Terminator | Unrecognized

definition parse_line :: "(jsstring \<Rightarrow> jsstring option) \<Rightarrow> jsstring \<Rightarrow> frame" where
  "parse_line parse raw =
     (let line = trim raw in
      if line = [] then Unrecognized
      else if line = str ''data: [DONE]'' then Terminator
      else if startsWith line (str ''data: '') 0 then
        (case parse (slice_from line 6) of
           None \<Rightarrow> Unrecognized
         | Some token \<Rightarrow> if token \<noteq> [] then Delta token else Unrecognized)
      else Unrecognized)"

text \<open>
  The local variables of the function; \<open>seen\<close> is not in the source: it records, in
  order, what each line the loop reached was taken for.
\<close>

record locals =
  decoder :: TextDecoder
  buffer :: jsstring
  formatter :: CodeBlockFormatter
  reply :: jsstring
  seen :: "frame list"

definition new_locals :: locals where
  "new_locals =
     \<lparr>decoder = new_TextDecoder, buffer = [], formatter = new_CodeBlockFormatter,
      reply = [], seen = []\<rparr>"

text \<open>The object the function returns: \<open>{ok: true}\<close> or \<open>{ok: false, status, errorText}\<close>.\<close>

record result =
  ok :: bool
  status :: "int option"
  errorText :: "jsstring option"

definition ok_result :: result where
  "ok_result = \<lparr>ok = True, status = None, errorText = None\<rparr>"

text \<open>
  A loop body either goes on with the next element, or the function is over inside the
  loop: it has returned \<open>{ok: true}\<close> or has rejected. Then its local variables are
  gone, and what is left is the outcome and the state (and the record of the frames).
\<close>

datatype flow = Next "locals \<times> world" | Return "frame list \<times> ((error + result) \<times> world)"

text \<open>
  The two statements that end both successful paths:
  \<open>if (CONFIG.autosave) await saveSession(); return { ok: true };\<close>
\<close>

definition save_and_return :: "env \<Rightarrow> world \<Rightarrow> (error + result) \<times> world" where
  "save_and_return e w =
     (if autosave e then
        (case saveSession w of
           (Some err, w') \<Rightarrow> (Inl err, w')
         | (None, w') \<Rightarrow> (Inr ok_result, w'))
      else (Inr ok_result, w))"

text \<open>
  The branch of the terminator: two line feeds, the reply pushed as the assistant's
  message, the session saved when \<open>CONFIG.autosave\<close> is on.
\<close>

definition finish :: "env \<Rightarrow> jsstring \<Rightarrow> world \<Rightarrow> (error + result) \<times> world" where
  "finish e rep w =
     (let w1 = stdout_write [Unstyled [nl, nl]] w;
          w2 = push \<lparr>role = Assistant, content = rep\<rparr> w1
      in save_and_return e w2)"

definition styled_out :: "styled \<Rightarrow> out" where
  "styled_out p = (case p of (s, t) \<Rightarrow> Styled s t)"

definition handle_line :: "env \<Rightarrow> jsstring \<Rightarrow> locals \<times> world \<Rightarrow> flow" where
  "handle_line e raw lw =
     (case lw of (l, w) \<Rightarrow>
        (case parse_line (content_of e) raw of
           Unrecognized \<Rightarrow> Next (l\<lparr>seen := seen l @ [Unrecognized]\<rparr>, w)
         | Terminator \<Rightarrow> Return (seen l @ [Terminator], finish e (reply l) w)
         | Delta token \<Rightarrow>
             (let (styled, f) = formatToken (formatter l) token;
                  w1 = stdout_write (map styled_out styled) w
              in Next (l\<lparr>formatter := f, reply := reply l @ token,
                          seen := seen l @ [Delta token]\<rparr>, w1))))"

fun handle_lines :: "env \<Rightarrow> jsstring list \<Rightarrow> locals \<times> world \<Rightarrow> flow" where
  "handle_lines e [] lw = Next lw"
| "handle_lines e (raw # raws) lw =
     (case handle_line e raw lw of
        Return r \<Rightarrow> Return r
      | Next lw' \<Rightarrow> handle_lines e raws lw')"

text \<open>
  The first three statements of the outer loop's body: decode the chunk, append it to
  the buffer, split, keep the last piece as the new buffer (\<open>lines.pop() ?? ''\<close>).
\<close>

definition feed :: "TextDecoder \<times> jsstring \<Rightarrow> byte list \<Rightarrow> jsstring list \<times> (TextDecoder \<times> jsstring)" where
  "feed db chunk =
     (case db of (d, buf) \<Rightarrow>
        (let (text, d') = decode d chunk;
             lines = split_nl (buf @ text)
         in (butlast lines, (d', (if lines = [] then [] else last lines)))))"

definition handle_chunk :: "env \<Rightarrow> byte list \<Rightarrow> locals \<times> world \<Rightarrow> flow" where
  "handle_chunk e chunk lw =
     (case lw of (l, w) \<Rightarrow>
        (let (lines, (d, buf)) = feed (decoder l, buffer l) chunk
         in handle_lines e lines (l\<lparr>decoder := d, buffer := buf\<rparr>, w)))"

fun handle_chunks :: "env \<Rightarrow> byte list list \<Rightarrow> locals \<times> world \<Rightarrow> flow" where
  "handle_chunks e [] lw = Next lw"
| "handle_chunks e (chunk # cs) lw =
     (case handle_chunk e chunk lw of
        Return r \<Rightarrow> Return r
      | Next lw' \<Rightarrow> handle_chunks e cs lw')"

definition streamChatOnce :: "env \<Rightarrow> world \<Rightarrow> (error + result) \<times> world" where
  "streamChatOnce e w =
     (let w0 = w\<lparr>requests := requests w @ [messages w], network := tl (network w)\<rparr> in
      case network w of
        [] \<Rightarrow> (Inl FetchRejected, w0)
      | Rejected # _ \<Rightarrow> (Inl FetchRejected, w0)
      | Response res # _ \<Rightarrow>
          if \<not> res_ok res \<or> res_body res = None then
            (let text = (case res_text res of None \<Rightarrow> [] | Some t \<Rightarrow> t);
                 w1 = (if VERBOSE e
                       then console_error (HttpError (res_status res) (res_statusText res) text) w0
                       else w0)
             in (Inr \<lparr>ok = False, status = Some (res_status res), errorText = Some text\<rparr>, w1))
          else
            (let b = the (res_body res);
                 w1 = stdout_write [Styled Cyan (str ''\<newline>GPT> '')] w0
             in case handle_chunks e (chunks b) (new_locals, w1) of
                  Return (fs, r) \<Rightarrow> r
                | Next (l, w2) \<Rightarrow>
                    if aborted b then (Inl BodyRejected, w2)
                    else
                      (let w3 = stdout_write [Unstyled [nl, nl]] w2;
                           w4 = (if reply l \<noteq> []
                                 then push \<lparr>role = Assistant, content = reply l\<rparr> w3 else w3)
                       in save_and_return e w4)))"

text \<open>The frames of a body, as the loop of a fresh call takes its lines.\<close>

definition no_world :: world where
  "no_world =
     \<lparr>messages = [], stdout = [], stderr = [], requests = [], network = [], sleeps = [],
      sessions = [], disk = []\<rparr>"

definition flow_seen :: "flow \<Rightarrow> frame list" where
  "flow_seen r = (case r of Next (l, w) \<Rightarrow> seen l | Return (fs, x) \<Rightarrow> fs)"

definition stream_frames :: "env \<Rightarrow> byte list list \<Rightarrow> frame list" where
  "stream_frames e cs = flow_seen (handle_chunks e cs (new_locals, no_world))"

text \<open>
  The lines a sequence of chunks yields when every chunk is fed, and the frames of a
  sequence of lines up to and including the first terminator, where the function returns.
\<close>

fun feed_all :: "TextDecoder \<times> jsstring \<Rightarrow> byte list list \<Rightarrow> jsstring list \<times> (TextDecoder \<times> jsstring)" where
  "feed_all db [] = ([], db)"
| "feed_all db (chunk # cs) =
     (let (lines, db1) = feed db chunk;
          (more, db2) = feed_all db1 cs
      in (lines @ more, db2))"

fun through_terminator :: "frame list \<Rightarrow> frame list" where
  "through_terminator [] = []"
| "through_terminator (f # fs) = (if f = Terminator then [f] else f # through_terminator fs)"

fun deltas :: "frame list \<Rightarrow> jsstring list" where
  "deltas [] = []"
| "deltas (Delta t # fs) = t # deltas fs"
| "deltas (_ # fs) = deltas fs"

text \<open>
  What a run of frames without terminator does to the local variables, and what it
  writes: the deltas go through the formatter in order and are appended to the reply.
\<close>

definition advance :: "locals \<Rightarrow> frame list \<Rightarrow> locals" where
  "advance l fs =
     l\<lparr>formatter := snd (formatTokens (formatter l) (deltas fs)),
       reply := reply l @ concat (deltas fs),
       seen := seen l @ fs\<rparr>"

definition shown :: "CodeBlockFormatter \<Rightarrow> frame list \<Rightarrow> out list" where
  "shown f fs = map styled_out (fst (formatTokens f (deltas fs)))"

section \<open>askGPTStreamWithRetry\<close>

definition MAX_RETRIES :: nat where
  "MAX_RETRIES = 3"

definition BASE_DELAY_MS :: nat where
  "BASE_DELAY_MS = 2000"

definition TRANSIENT_CODES :: "int set" where
  "TRANSIENT_CODES = {429}"

definition isRetriable :: "int \<Rightarrow> bool" where
  "isRetriable s \<longleftrightarrow> s \<in> TRANSIENT_CODES \<or> s \<ge> 500"

text \<open>\<open>r.status ?? 0\<close>.\<close>

definition status_or_0 :: "result \<Rightarrow> int" where
  "status_or_0 r = (case status r of None \<Rightarrow> 0 | Some s \<Rightarrow> s)"

text \<open>
  The terminal branch of the loop: the failure message, the hint when \<open>VERBOSE\<close> is off
  and \<open>r.errorText\<close> is a non-empty string, the prompt.
\<close>

definition report_failure :: "env \<Rightarrow> result \<Rightarrow> int \<Rightarrow> world \<Rightarrow> world" where
  "report_failure e r s w1 =
     (let w2 = console_error (RequestFailed s) w1;
          w3 = (if \<not> VERBOSE e \<and> errorText r \<noteq> None \<and> errorText r \<noteq> Some []
                then console_error VerboseHint w2 else w2)
      in stdout_write [Prompt] w3)"

text \<open>
  The loop, for any executor in the place of \<open>streamChatOnce\<close>. Besides the state it
  returns how many times it has called the executor (\<open>calls\<close> counts them; it is not in
  the source).
\<close>

function attempts :: "(world \<Rightarrow> (error + result) \<times> world) \<Rightarrow> env \<Rightarrow> nat \<Rightarrow> nat \<Rightarrow> world \<Rightarrow> (error + unit) \<times> nat \<times> world" where
  "attempts exec e attempt calls w =
     (if attempt \<le> MAX_RETRIES then
        (case exec w of
           (Inl err, w1) \<Rightarrow> (Inl err, calls + 1, w1)
         | (Inr r, w1) \<Rightarrow>
             if ok r then (Inr (), calls + 1, stdout_write [Prompt] w1)
             else
               (let s = status_or_0 r in
                if \<not> isRetriable s \<or> attempt = MAX_RETRIES then
                  (Inr (), calls + 1, report_failure e r s w1)
                else
                  (let delay = BASE_DELAY_MS * 2 ^ attempt;
                       w2 = console_error (TransientError s delay) w1
                   in attempts exec e (attempt + 1) (calls + 1) (sleep delay w2))))
      else (Inr (), calls, w))"
  by pat_completeness auto
termination
  by (relation "measure (\<lambda>(exec, e, attempt, calls, w). MAX_RETRIES + 1 - attempt)") auto

declare attempts.simps [simp del]

definition retry_with :: "(world \<Rightarrow> (error + result) \<times> world) \<Rightarrow> env \<Rightarrow> jsstring \<Rightarrow> world \<Rightarrow> (error + unit) \<times> nat \<times> world" where
  "retry_with exec e userText w =
     attempts exec e 0 0 (push \<lparr>role = User, content = userText\<rparr> w)"

definition askGPTStreamWithRetry :: "env \<Rightarrow> jsstring \<Rightarrow> world \<Rightarrow> (error + unit) \<times> nat \<times> world" where
  "askGPTStreamWithRetry e userText w = retry_with (streamChatOnce e) e userText w"

text \<open>
  A response that makes the call fail: not successful, or without body. Such a failure
  is retriable or fatal by its status.
\<close>

definition transport_failure :: "response \<Rightarrow> bool" where
  "transport_failure res \<longleftrightarrow> \<not> res_ok res \<or> res_body res = None"

definition retriable_failure :: "response \<Rightarrow> bool" where
  "retriable_failure res \<longleftrightarrow> transport_failure res \<and> isRetriable (res_status res)"

definition fatal_failure :: "response \<Rightarrow> bool" where
  "fatal_failure res \<longleftrightarrow> transport_failure res \<and> \<not> isRetriable (res_status res)"

text \<open>
  The lines of a body that a line feed ends, as the loop gets them when it reads every
  chunk, and what each is taken for. Whether the save of a successful call succeeds:
  \<open>CONFIG.autosave\<close> is off, or the coming \<open>fs.writeFile\<close> does not reject.
\<close>

definition delivered_lines :: "byte list list \<Rightarrow> jsstring list" where
  "delivered_lines cs = fst (feed_all (new_TextDecoder, []) cs)"

definition delivered_frames :: "env \<Rightarrow> byte list list \<Rightarrow> frame list" where
  "delivered_frames e cs = map (parse_line (content_of e)) (delivered_lines cs)"

definition save_succeeds :: "env \<Rightarrow> world \<Rightarrow> bool" where
  "save_succeeds e w =
     (if autosave e then (case disk w of False # later \<Rightarrow> False | _ \<Rightarrow> True) else True)"

section \<open>Sample payloads\<close>

text \<open>
  For the examples: what \<open>JSON.parse\<close> and the lookup give on a payload of the exact
  form \<open>{"choices":[{"delta":{"content":"TEXT"}}]}\<close>, where \<open>TEXT\<close> has no quote, no
  backslash and no control character, so that it stands for itself. Any other payload
  is answered \<open>None\<close>; the examples use no payload of another form that parses.
\<close>

definition sample_content_of :: "jsstring \<Rightarrow> jsstring option" where
  \<open>sample_content_of p =
     (let pre = str ''{"choices":[{"delta":{"content":"'';
          suf = str ''"}}]}'';
          mid = take (length p - length pre - length suf) (drop (length pre) p)
      in if p = pre @ mid @ suf \<and> list_all (\<lambda>c. 0x20 \<le> c \<and> c \<noteq> 0x22 \<and> c \<noteq> 0x5C) mid
         then Some mid else None)\<close>

definition sample_env :: env where
  "sample_env = \<lparr>VERBOSE = False, autosave = False, content_of = sample_content_of\<rparr>"

definition sample_env_autosave :: env where
  "sample_env_autosave = \<lparr>VERBOSE = False, autosave = True, content_of = sample_content_of\<rparr>"

text \<open>
  A body in three chunks: one delta whose text is U+00E9, its two bytes in different
  chunks, an empty line, and the terminator, its line cut after \<open>da\<close>. The same body
  followed by a chunk that no line feed ends. A body of one data line with no line feed
  after it. A body of two deltas whose second data line has no line feed after it. A
  body of two deltas, each line ended, that closes without terminator.
\<close>

definition sample_chunks :: "byte list list" where
  \<open>sample_chunks =
     [bytes ''data: {"choices":[{"delta":{"content":"'' @ [0xC3],
      [0xA9] @ bytes ''"}}]}\<newline>\<newline>da'',
      bytes ''ta: [DONE]\<newline>'']\<close>

definition sample_chunks_tail :: "byte list list" where
  "sample_chunks_tail = sample_chunks @ [bytes ''tail'']"

definition sample_unterminated :: "byte list list" where
  \<open>sample_unterminated = [bytes ''data: {"choices":[{"delta":{"content":"Hi"}}]}'']\<close>

definition sample_partial_cut :: "byte list list" where
  \<open>sample_partial_cut =
     [bytes ''data: {"choices":[{"delta":{"content":"Hel"}}]}\<newline>\<newline>'',
      bytes ''data: {"choices":[{"delta":{"content":"lo"}}]}'']\<close>

definition sample_partial :: "byte list list" where
  \<open>sample_partial =
     [bytes ''data: {"choices":[{"delta":{"content":"Hel"}}]}\<newline>\<newline>'',
      bytes ''data: {"choices":[{"delta":{"content":"lo"}}]}\<newline>\<newline>'']\<close>

text \<open>
  A successful response that streams the given chunks and closes; one that streams them
  and then fails instead of closing; an unsuccessful response with the given status,
  whose body reads \<open>busy\<close>.
\<close>

definition streaming :: "byte list list \<Rightarrow> response" where
  "streaming cs =
     \<lparr>res_ok = True, res_status = 200, res_statusText = str ''OK'',
      res_body = Some \<lparr>chunks = cs, aborted = False\<rparr>, res_text = None\<rparr>"

definition aborting :: "byte list list \<Rightarrow> response" where
  "aborting cs =
     \<lparr>res_ok = True, res_status = 200, res_statusText = str ''OK'',
      res_body = Some \<lparr>chunks = cs, aborted = True\<rparr>, res_text = None\<rparr>"

definition failing :: "int \<Rightarrow> response" where
  "failing s =
     \<lparr>res_ok = False, res_status = s, res_statusText = [],
      res_body = Some \<lparr>chunks = [bytes ''busy''], aborted = False\<rparr>,
      res_text = Some (str ''busy'')\<rparr>"

section \<open>The formatter on split fences\<close>

lemmas fmt_simps = formatToken_def new_CodeBlockFormatter_def str_def scan.simps
  lang_end.simps startsWith_def fence_def slice_def trim_def is_space_def nl_def plain_def

text \<open>
  C1 (fence split invariance; an incomplete marker at the end of the scan is kept in
  \<open>pending\<close>). The code does not do this. Fed whole, the marker opens a code block and
  the text without styling is the opening banner. Fed as one backtick and then two, the
  first call emits the backtick as prose and leaves \<open>pending\<close> empty, and the text
  without styling is three literal backticks: \<open>this.pending = ''\<close> ends every call,
  whatever the scan left undecided.
\<close>

theorem formatToken_split_marker:
  "plain (fst (formatTokens new_CodeBlockFormatter [str ''```''])) = open_banner []
   \<and> fst (formatToken new_CodeBlockFormatter (str ''`'')) = [(Cyan, str ''`'')]
   \<and> pending (snd (formatToken new_CodeBlockFormatter (str ''`''))) = []
   \<and> plain (fst (formatTokens new_CodeBlockFormatter [str ''`'', str ''``''])) = str ''```''
   \<and> open_banner [] \<noteq> str ''```''"
  by (simp add: fmt_simps open_banner_def)

text \<open>
  C2 (the example with the language tag cut after \<open>py\<close>). On the three deltas of the
  example the code emits \<open>Here:\<close> and a line feed as prose, one opening banner tagged
  \<open>py\<close> (not \<open>python\<close>), then \<open>thon\<close>, a line feed, \<open>print(1)\<close> and a line feed as code,
  one closing banner, and a line feed and \<open>done\<close> as prose: the tag is read from the
  part of the line that has arrived.
\<close>

theorem formatToken_example_split_tag:
  "fst (formatTokens new_CodeBlockFormatter
         [str ''Here:\<newline>```py'', str ''thon\<newline>print(1)\<newline>```'', str ''\<newline>done'']) =
     map (\<lambda>c. (Cyan, [c])) (str ''Here:\<newline>'') @
     [(Yellow, open_banner (str ''py''))] @
     map (\<lambda>c. (Reset, [c])) (str ''thon\<newline>print(1)\<newline>'') @
     [(Yellow, close_banner)] @
     map (\<lambda>c. (Cyan, [c])) (str ''\<newline>done'')
   \<and> open_banner (str ''py'') \<noteq> open_banner (str ''python'')"
  by (simp add: fmt_simps open_banner_def)

section \<open>Lines and chunks\<close>

lemma split_nl_not_Nil: "split_nl s \<noteq> []"
  by (induction s) (auto split: list.splits)

lemma split_nl_no_nl: "nl \<notin> set s \<Longrightarrow> split_nl s = [s]"
  by (induction s) auto

lemma split_nl_lines_no_nl: "l \<in> set (split_nl s) \<Longrightarrow> nl \<notin> set l"
proof (induction s arbitrary: l)
  case Nil
  then show ?case by simp
next
  case (Cons c cs)
  obtain x xs where x: "split_nl cs = x # xs"
    using split_nl_not_Nil [of cs] by (cases "split_nl cs") auto
  with Cons show ?case by (auto split: if_splits)
qed

lemma split_nl_join:
  "concat (map (\<lambda>l. l @ [nl]) (butlast (split_nl s))) @ last (split_nl s) = s"
proof (induction s)
  case Nil
  then show ?case by simp
next
  case (Cons c cs)
  obtain x xs where x: "split_nl cs = x # xs"
    using split_nl_not_Nil [of cs] by (cases "split_nl cs") auto
  with Cons show ?case by (cases xs) (auto split: if_splits)
qed

lemma split_nl_append:
  "split_nl (s @ t) = butlast (split_nl s) @ split_nl (last (split_nl s) @ t)"
proof (induction s)
  case Nil
  then show ?case by simp
next
  case (Cons c cs)
  obtain x xs where x: "split_nl cs = x # xs"
    using split_nl_not_Nil [of cs] by (cases "split_nl cs") auto
  obtain y ys where y: "split_nl (x @ t) = y # ys"
    using split_nl_not_Nil [of "x @ t"] by (cases "split_nl (x @ t)") auto
  show ?case
  proof (cases "c = nl")
    case True
    with Cons x show ?thesis by (simp add: split_nl_not_Nil)
  next
    case False
    show ?thesis
    proof (cases xs)
      case Nil
      with Cons x False show ?thesis by simp
    next
      case (Cons z zs)
      with Cons.IH x False show ?thesis by simp
    qed
  qed
qed

lemma decode_append:
  "decode d (a @ b) =
     (let (t1, d1) = decode d a; (t2, d2) = decode d1 b in (t1 @ t2, d2))"
  by (induction a arbitrary: d) (auto simp: Let_def split: prod.splits)

lemma feed_eq:
  "decode d c = (t, d1) \<Longrightarrow>
   feed (d, buf) c = (butlast (split_nl (buf @ t)), (d1, last (split_nl (buf @ t))))"
  by (simp add: feed_def Let_def split_nl_not_Nil)

lemma feed_append:
  "feed (d, buf) (a @ b) =
     (let (l1, db1) = feed (d, buf) a; (l2, db2) = feed db1 b in (l1 @ l2, db2))"
proof -
  obtain t1 d1 where 1: "decode d a = (t1, d1)" by (cases "decode d a")
  obtain t2 d2 where 2: "decode d1 b = (t2, d2)" by (cases "decode d1 b")
  have 3: "decode d (a @ b) = (t1 @ t2, d2)" by (simp add: decode_append 1 2)
  have 4: "split_nl (buf @ t1 @ t2) =
      butlast (split_nl (buf @ t1)) @ split_nl (last (split_nl (buf @ t1)) @ t2)"
    using split_nl_append [of "buf @ t1" t2] by simp
  show ?thesis
    by (simp add: feed_eq [OF 1] feed_eq [OF 2] feed_eq [OF 3] 4 split_nl_not_Nil butlast_append)
qed

lemma feed_Nil: "nl \<notin> set buf \<Longrightarrow> feed (d, buf) [] = ([], (d, buf))"
  by (simp add: feed_def split_nl_no_nl)

lemma feed_buffer_no_nl: "feed db c = (ls, (d', buf')) \<Longrightarrow> nl \<notin> set buf'"
proof -
  assume a: "feed db c = (ls, (d', buf'))"
  obtain d buf where db: "db = (d, buf)" by (cases db)
  obtain t d1 where t: "decode d c = (t, d1)" by (cases "decode d c")
  from a db have "buf' = last (split_nl (buf @ t))"
    by (simp add: feed_eq [OF t])
  then show ?thesis
    using split_nl_lines_no_nl [of buf' "buf @ t"] split_nl_not_Nil [of "buf @ t"] by simp
qed

lemma feed_all_concat:
  "nl \<notin> set buf \<Longrightarrow> feed_all (d, buf) cs = feed (d, buf) (concat cs)"
proof (induction cs arbitrary: d buf)
  case Nil
  then show ?case by (simp add: feed_Nil)
next
  case (Cons c cs)
  obtain ls d1 b1 where f: "feed (d, buf) c = (ls, (d1, b1))"
    by (metis prod.exhaust)
  from feed_buffer_no_nl [OF f] have "feed_all (d1, b1) cs = feed (d1, b1) (concat cs)"
    by (rule Cons.IH)
  with f show ?case by (simp add: feed_append)
qed


section \<open>The loop over lines\<close>

lemma stdout_write_Nil: "stdout_write [] w = w"
  by (simp add: stdout_write_def)

lemma stdout_write_twice: "stdout_write b (stdout_write a w) = stdout_write (a @ b) w"
  by (simp add: stdout_write_def)

lemma formatTokens_append:
  "formatTokens f (xs @ ys) =
     (let (o1, f1) = formatTokens f xs; (o2, f2) = formatTokens f1 ys in (o1 @ o2, f2))"
  by (induction xs arbitrary: f) (auto simp: Let_def split: prod.splits)

lemma deltas_append: "deltas (xs @ ys) = deltas xs @ deltas ys"
  by (induction xs rule: deltas.induct) auto

lemma through_terminator_append:
  "through_terminator (xs @ ys) =
     (if Terminator \<in> set xs then through_terminator xs else xs @ through_terminator ys)"
  by (induction xs) auto

lemma through_terminator_id: "Terminator \<notin> set fs \<Longrightarrow> through_terminator fs = fs"
  by (induction fs) auto

lemma advance_Nil: "advance l [] = l"
  by (simp add: advance_def)

lemma shown_Nil: "shown f [] = []"
  by (simp add: shown_def)

lemma advance_append: "advance l (xs @ ys) = advance (advance l xs) ys"
  by (simp add: advance_def deltas_append formatTokens_append Let_def split: prod.splits)

lemma shown_append: "shown f (xs @ ys) = shown f xs @ shown (snd (formatTokens f (deltas xs))) ys"
  by (simp add: shown_def deltas_append formatTokens_append Let_def split: prod.splits)

lemma handle_lines_eq:
  "handle_lines e raws (l, w) =
     (let fs = map (parse_line (content_of e)) raws in
      if Terminator \<in> set fs
      then Return (seen l @ through_terminator fs,
                   finish e (reply l @ concat (deltas (through_terminator fs)))
                     (stdout_write (shown (formatter l) (through_terminator fs)) w))
      else Next (advance l fs, stdout_write (shown (formatter l) fs) w))"
proof (induction raws arbitrary: l w)
  case Nil
  then show ?case by (simp add: advance_Nil shown_Nil stdout_write_Nil)
next
  case (Cons raw raws)
  show ?case
  proof (cases "parse_line (content_of e) raw")
    case (Delta t)
    obtain styled f where f: "formatToken (formatter l) t = (styled, f)"
      by (cases "formatToken (formatter l) t")
    let ?l = "l\<lparr>formatter := f, reply := reply l @ t, seen := seen l @ [Delta t]\<rparr>"
    have 1: "handle_line e raw (l, w) = Next (?l, stdout_write (map styled_out styled) w)"
      by (simp add: handle_line_def Delta f)
    show ?thesis
      by (simp add: 1 Cons.IH Delta f Let_def advance_def shown_def stdout_write_twice
          split: prod.splits)
  next
    case Terminator
    then show ?thesis
      by (simp add: handle_line_def shown_def stdout_write_Nil)
  next
    case Unrecognized
    have 1: "handle_line e raw (l, w) = Next (l\<lparr>seen := seen l @ [Unrecognized]\<rparr>, w)"
      by (simp add: handle_line_def Unrecognized)
    show ?thesis
      by (simp add: 1 Cons.IH Unrecognized Let_def advance_def shown_def)
  qed
qed


section \<open>Steps of the retry loop\<close>

lemma attempts_Inl:
  "attempt \<le> MAX_RETRIES \<Longrightarrow> exec w = (Inl err, w1) \<Longrightarrow>
   attempts exec e attempt calls w = (Inl err, calls + 1, w1)"
  by (subst attempts.simps) simp

lemma attempts_ok:
  "attempt \<le> MAX_RETRIES \<Longrightarrow> exec w = (Inr r, w1) \<Longrightarrow> ok r \<Longrightarrow>
   attempts exec e attempt calls w = (Inr (), calls + 1, stdout_write [Prompt] w1)"
  by (subst attempts.simps) simp

lemma attempts_fatal:
  "attempt \<le> MAX_RETRIES \<Longrightarrow> exec w = (Inr r, w1) \<Longrightarrow> \<not> ok r \<Longrightarrow>
   \<not> isRetriable (status_or_0 r) \<Longrightarrow>
   attempts exec e attempt calls w = (Inr (), calls + 1, report_failure e r (status_or_0 r) w1)"
  by (subst attempts.simps) simp

lemma attempts_last:
  "exec w = (Inr r, w1) \<Longrightarrow> \<not> ok r \<Longrightarrow>
   attempts exec e MAX_RETRIES calls w = (Inr (), calls + 1, report_failure e r (status_or_0 r) w1)"
  by (subst attempts.simps) simp

lemma attempts_retry:
  "attempt < MAX_RETRIES \<Longrightarrow> exec w = (Inr r, w1) \<Longrightarrow> \<not> ok r \<Longrightarrow>
   isRetriable (status_or_0 r) \<Longrightarrow>
   attempts exec e attempt calls w =
     attempts exec e (attempt + 1) (calls + 1)
       (sleep (BASE_DELAY_MS * 2 ^ attempt)
          (console_error (TransientError (status_or_0 r) (BASE_DELAY_MS * 2 ^ attempt)) w1))"
  by (subst attempts.simps) (simp add: Let_def)

lemma attempts_calls_bounds:
  "attempt \<le> MAX_RETRIES \<Longrightarrow>
   calls < fst (snd (attempts exec e attempt calls w)) \<and>
   fst (snd (attempts exec e attempt calls w)) \<le> calls + (MAX_RETRIES + 1 - attempt)"
proof (induction "MAX_RETRIES - attempt" arbitrary: attempt calls w)
  case 0
  then have a: "attempt = MAX_RETRIES" by simp
  obtain x w1 where x: "exec w = (x, w1)" by (cases "exec w")
  show ?case
  proof (cases x)
    case (Inl err)
    with x a show ?thesis by (simp add: attempts_Inl)
  next
    case (Inr r)
    with x a show ?thesis by (cases "ok r") (simp_all add: attempts_ok attempts_last)
  qed
next
  case (Suc n)
  then have a: "attempt < MAX_RETRIES" by simp
  obtain x w1 where x: "exec w = (x, w1)" by (cases "exec w")
  show ?case
  proof (cases x)
    case (Inl err)
    with x a show ?thesis by (simp add: attempts_Inl)
  next
    case (Inr r)
    show ?thesis
    proof (cases "ok r \<or> \<not> isRetriable (status_or_0 r)")
      case True
      with x a Inr show ?thesis by (cases "ok r") (auto simp: attempts_ok attempts_fatal)
    next
      case False
      let ?w = "sleep (BASE_DELAY_MS * 2 ^ attempt)
          (console_error (TransientError (status_or_0 r) (BASE_DELAY_MS * 2 ^ attempt)) w1)"
      from False x a Inr have eq: "attempts exec e attempt calls w =
          attempts exec e (attempt + 1) (calls + 1) ?w"
        by (simp add: attempts_retry)
      from Suc.hyps(2) a have "n = MAX_RETRIES - (attempt + 1)" by simp
      from Suc.hyps(1) [OF this, of "calls + 1" ?w] a
      have "calls + 1 < fst (snd (attempts exec e (attempt + 1) (calls + 1) ?w))"
        and "fst (snd (attempts exec e (attempt + 1) (calls + 1) ?w))
               \<le> calls + 1 + (MAX_RETRIES + 1 - (attempt + 1))"
        by simp_all
      with a show ?thesis unfolding eq by linarith
    qed
  qed
qed

section \<open>The loop over chunks\<close>

lemma advance_fields [simp]:
  "decoder (advance l fs) = decoder l"
  "buffer (advance l fs) = buffer l"
  "seen (advance l fs) = seen l @ fs"
  "reply (advance l fs) = reply l @ concat (deltas fs)"
  "formatter (advance l fs) = snd (formatTokens (formatter l) (deltas fs))"
  by (simp_all add: advance_def)

lemma advance_decoder_buffer:
  "advance (l\<lparr>decoder := d, buffer := b\<rparr>) fs = (advance l fs)\<lparr>decoder := d, buffer := b\<rparr>"
  by (simp add: advance_def)

lemma handle_chunks_eq:
  "handle_chunks e cs (l, w) =
     (case feed_all (decoder l, buffer l) cs of
        (lines, (d, buf)) \<Rightarrow>
          (let fs = map (parse_line (content_of e)) lines in
           if Terminator \<in> set fs
           then Return (seen l @ through_terminator fs,
                        finish e (reply l @ concat (deltas (through_terminator fs)))
                          (stdout_write (shown (formatter l) (through_terminator fs)) w))
           else Next ((advance l fs)\<lparr>decoder := d, buffer := buf\<rparr>,
                      stdout_write (shown (formatter l) fs) w)))"
proof (induction cs arbitrary: l w)
  case Nil
  then show ?case by (simp add: advance_Nil shown_Nil stdout_write_Nil)
next
  case (Cons c cs)
  obtain ls1 d1 b1 where f1: "feed (decoder l, buffer l) c = (ls1, (d1, b1))"
    by (metis prod.exhaust)
  obtain ls2 d2 b2 where f2: "feed_all (d1, b1) cs = (ls2, (d2, b2))"
    by (metis prod.exhaust)
  let ?fs1 = "map (parse_line (content_of e)) ls1"
  let ?fs2 = "map (parse_line (content_of e)) ls2"
  let ?l1 = "l\<lparr>decoder := d1, buffer := b1\<rparr>"
  have hc: "handle_chunk e c (l, w) = handle_lines e ls1 (?l1, w)"
    by (simp add: handle_chunk_def f1)
  show ?case
  proof (cases "Terminator \<in> set ?fs1")
    case True
    then show ?thesis
      by (simp add: hc handle_lines_eq Let_def f1 f2 through_terminator_append del: set_map)
  next
    case False
    let ?l' = "advance ?l1 ?fs1"
    have 1: "handle_chunk e c (l, w) = Next (?l', stdout_write (shown (formatter l) ?fs1) w)"
      using False by (simp add: hc handle_lines_eq Let_def del: set_map)
    have 2: "feed_all (decoder ?l', buffer ?l') cs = (ls2, (d2, b2))"
      by (simp add: f2)
    show ?thesis
    proof (cases "Terminator \<in> set ?fs2")
      case True
      with False show ?thesis
        by (simp add: 1 Cons.IH 2 Let_def f1 f2 through_terminator_append deltas_append shown_append
            stdout_write_twice del: set_map)
    next
      case T2: False
      have 3: "(advance ?l' ?fs2)\<lparr>decoder := d2, buffer := b2\<rparr> =
               (advance l (?fs1 @ ?fs2))\<lparr>decoder := d2, buffer := b2\<rparr>"
        by (simp add: advance_append advance_decoder_buffer)
      from False T2 show ?thesis
        by (simp add: 1 Cons.IH 2 Let_def f1 f2 3 shown_append stdout_write_twice del: set_map)
    qed
  qed
qed

section \<open>One call of streamChatOnce\<close>

lemma stream_frames_eq:
  "stream_frames e cs =
     through_terminator (map (parse_line (content_of e)) (fst (feed_all (new_TextDecoder, []) cs)))"
proof -
  obtain ls d b where f: "feed_all (new_TextDecoder, []) cs = (ls, (d, b))"
    by (metis prod.exhaust)
  have "decoder new_locals = new_TextDecoder" "buffer new_locals = []" "seen new_locals = []"
    by (simp_all add: new_locals_def)
  then show ?thesis
    by (simp add: stream_frames_def handle_chunks_eq f Let_def flow_seen_def
        through_terminator_id del: set_map)
qed

lemma feed_all_single: "feed_all db [c] = feed db c"
  by (simp add: Let_def split: prod.splits)

lemma Terminator_through: "Terminator \<in> set (through_terminator fs) \<longleftrightarrow> Terminator \<in> set fs"
  by (induction fs) auto

lemma set_through_terminator: "set (through_terminator fs) \<subseteq> set fs"
  by (induction fs) auto

lemma parse_line_Delta: "parse_line p raw = Delta t \<Longrightarrow> t \<noteq> []"
  by (auto simp: parse_line_def Let_def split: if_splits option.splits)

lemma deltas_set: "t \<in> set (deltas fs) \<longleftrightarrow> Delta t \<in> set fs"
  by (induction fs rule: deltas.induct) auto

lemma stream_frames_deltas: "t \<in> set (deltas (stream_frames e cs)) \<Longrightarrow> t \<noteq> []"
proof -
  assume "t \<in> set (deltas (stream_frames e cs))"
  then have "Delta t \<in> set (stream_frames e cs)" by (simp add: deltas_set)
  then have "Delta t \<in> set (map (parse_line (content_of e)) (fst (feed_all (new_TextDecoder, []) cs)))"
    using set_through_terminator unfolding stream_frames_eq by blast
  then show ?thesis by (auto dest: parse_line_Delta [OF sym])
qed

lemma concat_deltas_Nil:
  "concat (deltas (stream_frames e cs)) = [] \<longleftrightarrow> deltas (stream_frames e cs) = []"
proof
  assume c: "concat (deltas (stream_frames e cs)) = []"
  show "deltas (stream_frames e cs) = []"
  proof (cases "deltas (stream_frames e cs)")
    case Nil
    then show ?thesis .
  next
    case (Cons t ts)
    then have "t \<in> set (deltas (stream_frames e cs))" by simp
    then have "t \<noteq> []" by (rule stream_frames_deltas)
    with c Cons show ?thesis by simp
  qed
qed simp

text \<open>What a call does when the response is successful and has a body, from the frames of the body.\<close>

lemma streamChatOnce_stream:
  assumes "network w = Response res # rest" and "res_ok res" and "res_body res = Some b"
  shows "streamChatOnce e w =
     (let F = stream_frames e (chunks b);
          w1 = stdout_write (Styled Cyan (str ''\<newline>GPT> '') # shown new_CodeBlockFormatter F)
                 (w\<lparr>requests := requests w @ [messages w], network := rest\<rparr>)
      in if Terminator \<in> set F then finish e (concat (deltas F)) w1
         else if aborted b then (Inl BodyRejected, w1)
         else
           (let w3 = stdout_write [Unstyled [nl, nl]] w1;
                w4 = (if deltas F \<noteq> []
                      then push \<lparr>role = Assistant, content = concat (deltas F)\<rparr> w3 else w3)
            in save_and_return e w4))"
proof -
  obtain ls d bf where f: "feed_all (new_TextDecoder, []) (chunks b) = (ls, (d, bf))"
    by (metis prod.exhaust)
  let ?fs = "map (parse_line (content_of e)) ls"
  have nl: "decoder new_locals = new_TextDecoder" "buffer new_locals = []" "seen new_locals = []"
    "reply new_locals = []" "formatter new_locals = new_CodeBlockFormatter"
    by (simp_all add: new_locals_def)
  have F: "stream_frames e (chunks b) = through_terminator ?fs"
    by (simp add: stream_frames_eq f)
  show ?thesis
  proof (cases "Terminator \<in> set ?fs")
    case True
    then have "Terminator \<in> set (stream_frames e (chunks b))"
      by (simp add: F Terminator_through del: set_map)
    with True show ?thesis using assms
      by (simp add: streamChatOnce_def handle_chunks_eq nl f Let_def F stdout_write_twice
          del: set_map)
  next
    case False
    then have F': "stream_frames e (chunks b) = ?fs"
      by (simp add: F through_terminator_id del: set_map)
    have r: "(\<forall>xs\<in>set (deltas ?fs). xs = []) = (deltas ?fs = [])"
      using concat_deltas_Nil [of e "chunks b"] by (simp add: F')
    from False show ?thesis using assms
      by (simp add: streamChatOnce_def handle_chunks_eq nl f Let_def F' stdout_write_twice r
          del: set_map)
  qed
qed

lemma streamChatOnce_failure:
  assumes "network w = Response res # rest" and "\<not> res_ok res \<or> res_body res = None"
  shows "streamChatOnce e w =
     (Inr \<lparr>ok = False, status = Some (res_status res),
           errorText = Some (case res_text res of None \<Rightarrow> [] | Some t \<Rightarrow> t)\<rparr>,
      (let w0 = w\<lparr>requests := requests w @ [messages w], network := rest\<rparr>
       in if VERBOSE e
          then console_error (HttpError (res_status res) (res_statusText res)
                 (case res_text res of None \<Rightarrow> [] | Some t \<Rightarrow> t)) w0
          else w0))"
  using assms by (auto simp: streamChatOnce_def Let_def)

lemma streamChatOnce_rejected:
  assumes "network w = [] \<or> (\<exists>rest. network w = Rejected # rest)"
  shows "streamChatOnce e w =
     (Inl FetchRejected, w\<lparr>requests := requests w @ [messages w], network := tl (network w)\<rparr>)"
  using assms by (auto simp: streamChatOnce_def Let_def)

section \<open>Fields of the state\<close>

lemma world_fields [simp]:
  "messages (stdout_write os w) = messages w"
  "stderr (stdout_write os w) = stderr w"
  "requests (stdout_write os w) = requests w"
  "network (stdout_write os w) = network w"
  "sleeps (stdout_write os w) = sleeps w"
  "sessions (stdout_write os w) = sessions w"
  "stdout (stdout_write os w) = stdout w @ os"
  "messages (console_error x w) = messages w"
  "stderr (console_error x w) = stderr w @ [x]"
  "requests (console_error x w) = requests w"
  "network (console_error x w) = network w"
  "sleeps (console_error x w) = sleeps w"
  "sessions (console_error x w) = sessions w"
  "stdout (console_error x w) = stdout w"
  "messages (push m w) = messages w @ [m]"
  "stderr (push m w) = stderr w"
  "requests (push m w) = requests w"
  "network (push m w) = network w"
  "sleeps (push m w) = sleeps w"
  "sessions (push m w) = sessions w"
  "stdout (push m w) = stdout w"
  "messages (sleep n w) = messages w"
  "stderr (sleep n w) = stderr w"
  "requests (sleep n w) = requests w"
  "network (sleep n w) = network w"
  "sleeps (sleep n w) = sleeps w @ [n]"
  "sessions (sleep n w) = sessions w"
  "stdout (sleep n w) = stdout w"
  "disk (stdout_write os w) = disk w"
  "disk (console_error x w) = disk w"
  "disk (push m w) = disk w"
  "disk (sleep n w) = disk w"
  by (simp_all add: stdout_write_def console_error_def push_def sleep_def)

lemma saveSession_fields [simp]:
  "messages (snd (saveSession w)) = messages w"
  "stderr (snd (saveSession w)) = stderr w"
  "requests (snd (saveSession w)) = requests w"
  "network (snd (saveSession w)) = network w"
  "sleeps (snd (saveSession w)) = sleeps w"
  by (simp_all add: saveSession_def stdout_write_def split: list.splits bool.splits)

lemma save_and_return_fields [simp]:
  "messages (snd (save_and_return e w)) = messages w"
  "stderr (snd (save_and_return e w)) = stderr w"
  "requests (snd (save_and_return e w)) = requests w"
  "network (snd (save_and_return e w)) = network w"
  "sleeps (snd (save_and_return e w)) = sleeps w"
proof -
  obtain x w' where x: "saveSession w = (x, w')" by (cases "saveSession w")
  have "messages w' = messages w" "stderr w' = stderr w" "requests w' = requests w"
    "network w' = network w" "sleeps w' = sleeps w"
    using saveSession_fields [of w] by (simp_all add: x)
  then show "messages (snd (save_and_return e w)) = messages w"
    "stderr (snd (save_and_return e w)) = stderr w"
    "requests (snd (save_and_return e w)) = requests w"
    "network (snd (save_and_return e w)) = network w"
    "sleeps (snd (save_and_return e w)) = sleeps w"
    by (simp_all add: save_and_return_def x split: option.splits)
qed

lemma save_and_return_outcome:
  "fst (save_and_return e w) = Inr ok_result \<or> fst (save_and_return e w) = Inl SaveRejected"
  by (simp add: save_and_return_def saveSession_def split: list.splits bool.splits)

lemma save_and_return_ok:
  "save_succeeds e w \<Longrightarrow> fst (save_and_return e w) = Inr ok_result"
  by (auto simp: save_and_return_def saveSession_def save_succeeds_def
      split: list.splits bool.splits if_splits)

lemma finish_fields [simp]:
  "messages (snd (finish e rep w)) = messages w @ [\<lparr>role = Assistant, content = rep\<rparr>]"
  "stderr (snd (finish e rep w)) = stderr w"
  "requests (snd (finish e rep w)) = requests w"
  "network (snd (finish e rep w)) = network w"
  "sleeps (snd (finish e rep w)) = sleeps w"
  by (simp_all add: finish_def Let_def)

lemma finish_outcome:
  "fst (finish e rep w) = Inr ok_result \<or> fst (finish e rep w) = Inl SaveRejected"
  by (simp add: finish_def Let_def save_and_return_outcome)

lemma report_failure_fields [simp]:
  "messages (report_failure e r s w) = messages w"
  "requests (report_failure e r s w) = requests w"
  "network (report_failure e r s w) = network w"
  "sleeps (report_failure e r s w) = sleeps w"
  "sessions (report_failure e r s w) = sessions w"
  "RequestFailed s \<in> set (stderr (report_failure e r s w))"
  by (simp_all add: report_failure_def Let_def)

lemmas dec_simps = utf8_handler_def utf8_lead_def utf16_def new_TextDecoder_def bytes_def str_def

lemmas frame_simps = stream_frames_eq feed_def parse_line_def trim_def is_space_def
  startsWith_def slice_from_def sample_content_of_def sample_env_def nl_def Let_def

section \<open>A failed transport changes nothing of the conversation\<close>

text \<open>
  C9. When the response is not successful or has no body, \<open>streamChatOnce\<close> returns
  \<open>{ok: false, status, errorText}\<close> with the status of the response and the text of its
  body (empty when reading it fails); \<open>messages\<close> is as before, nothing has been written
  to standard output, and no session has been saved. (The request itself has been
  posted, and under \<open>VERBOSE\<close> one line has gone to standard error.)
\<close>

theorem transport_failure_atomic:
  assumes "network w = Response res # rest" and "\<not> res_ok res \<or> res_body res = None"
  shows "fst (streamChatOnce e w) =
           Inr \<lparr>ok = False, status = Some (res_status res),
                errorText = Some (case res_text res of None \<Rightarrow> [] | Some t \<Rightarrow> t)\<rparr>
         \<and> messages (snd (streamChatOnce e w)) = messages w
         \<and> stdout (snd (streamChatOnce e w)) = stdout w
         \<and> sessions (snd (streamChatOnce e w)) = sessions w"
  by (simp add: streamChatOnce_failure [OF assms] Let_def)

theorem transport_failure_atomic_witness:
  "fst (streamChatOnce sample_env (no_world\<lparr>network := [Response (failing 503)]\<rparr>)) =
     Inr \<lparr>ok = False, status = Some 503, errorText = Some (str ''busy'')\<rparr>
   \<and> messages (snd (streamChatOnce sample_env (no_world\<lparr>network := [Response (failing 503)]\<rparr>))) = []
   \<and> stdout (snd (streamChatOnce sample_env (no_world\<lparr>network := [Response (failing 503)]\<rparr>))) = []"
  using transport_failure_atomic [of "no_world\<lparr>network := [Response (failing 503)]\<rparr>"
      "failing 503" "[]" sample_env]
  by (simp add: no_world_def failing_def)

section \<open>A stream that closes without terminator\<close>

lemma sample_env_fields:
  "VERBOSE sample_env = False" "autosave sample_env = False"
  "content_of sample_env = sample_content_of"
  "VERBOSE sample_env_autosave = False" "autosave sample_env_autosave = True"
  "content_of sample_env_autosave = sample_content_of"
  by (simp_all add: sample_env_def sample_env_autosave_def)

lemma stream_frames_delivered:
  "Terminator \<notin> set (delivered_frames e cs) \<Longrightarrow> stream_frames e cs = delivered_frames e cs"
  by (simp add: stream_frames_eq delivered_frames_def delivered_lines_def through_terminator_id
      del: set_map)

lemma stream_frames_content_of:
  "content_of e = content_of e' \<Longrightarrow> stream_frames e cs = stream_frames e' cs"
  by (simp add: stream_frames_eq)

lemma save_succeeds_disk: "disk w' = disk w \<Longrightarrow> save_succeeds e w' = save_succeeds e w"
  by (simp add: save_succeeds_def)

text \<open>
  C7, as the code has it. When the response streams, the body closes without failing,
  none of its lines ended by a line feed is the terminator and at least one of them is
  a delta, then \<open>streamChatOnce\<close> has pushed exactly one assistant message, whose
  content is the deltas of those lines concatenated in order. When moreover the save
  succeeds (\<open>CONFIG.autosave\<close> is off, or the write does not reject), it returns
  \<open>{ok: true}\<close>, and \<open>askGPTStreamWithRetry\<close> on such a response calls the executor
  once, posts one request, sleeps never and writes nothing to standard error.
\<close>

theorem partial_output_preserved:
  assumes "network w = Response res # rest" and "res_ok res" and "res_body res = Some b"
    and "\<not> aborted b"
    and "Terminator \<notin> set (delivered_frames e (chunks b))"
    and "deltas (delivered_frames e (chunks b)) \<noteq> []"
  shows "messages (snd (streamChatOnce e w)) = messages w @
           [\<lparr>role = Assistant, content = concat (deltas (delivered_frames e (chunks b)))\<rparr>]
         \<and> (save_succeeds e w \<longrightarrow>
              fst (streamChatOnce e w) = Inr ok_result \<and> ok ok_result
              \<and> (\<exists>w2. askGPTStreamWithRetry e userText w = (Inr (), 1, w2)
                 \<and> messages w2 = messages w @
                     [\<lparr>role = User, content = userText\<rparr>,
                      \<lparr>role = Assistant,
                        content = concat (deltas (delivered_frames e (chunks b)))\<rparr>]
                 \<and> stderr w2 = stderr w \<and> sleeps w2 = sleeps w
                 \<and> length (requests w2) = length (requests w) + 1))"
proof -
  let ?D = "delivered_frames e (chunks b)"
  let ?m = "\<lparr>role = Assistant, content = concat (deltas ?D)\<rparr>"
  have F: "stream_frames e (chunks b) = ?D"
    using assms(5) by (rule stream_frames_delivered)
  have call: "messages (snd (streamChatOnce e v)) = messages v @ [?m]
      \<and> stderr (snd (streamChatOnce e v)) = stderr v
      \<and> sleeps (snd (streamChatOnce e v)) = sleeps v
      \<and> length (requests (snd (streamChatOnce e v))) = length (requests v) + 1
      \<and> (save_succeeds e v \<longrightarrow> fst (streamChatOnce e v) = Inr ok_result)"
    if n: "network v = Response res # rest" for v
  proof -
    let ?w4 = "push ?m (stdout_write [Unstyled [nl, nl]]
        (stdout_write (Styled Cyan (str ''\<newline>GPT> '') # shown new_CodeBlockFormatter ?D)
           (v\<lparr>requests := requests v @ [messages v], network := rest\<rparr>)))"
    have sc: "streamChatOnce e v = save_and_return e ?w4"
      using assms(4,5,6) by (simp add: streamChatOnce_stream [OF n assms(2,3)] F Let_def)
    have "disk ?w4 = disk v" by simp
    then have "save_succeeds e ?w4 = save_succeeds e v" by (rule save_succeeds_disk)
    then have "save_succeeds e v \<longrightarrow> fst (save_and_return e ?w4) = Inr ok_result"
      by (simp add: save_and_return_ok)
    then show ?thesis by (simp add: sc)
  qed
  have first: "messages (snd (streamChatOnce e w)) = messages w @ [?m]"
    using call [OF assms(1)] by simp
  have second: "fst (streamChatOnce e w) = Inr ok_result \<and> ok ok_result
      \<and> (\<exists>w2. askGPTStreamWithRetry e userText w = (Inr (), 1, w2)
         \<and> messages w2 = messages w @ [\<lparr>role = User, content = userText\<rparr>, ?m]
         \<and> stderr w2 = stderr w \<and> sleeps w2 = sleeps w
         \<and> length (requests w2) = length (requests w) + 1)"
    if ok: "save_succeeds e w"
  proof -
    let ?v = "push \<lparr>role = User, content = userText\<rparr> w"
    let ?w1 = "snd (streamChatOnce e ?v)"
    from assms(1) have nv: "network ?v = Response res # rest" by simp
    have "disk ?v = disk w" by simp
    then have "save_succeeds e ?v = save_succeeds e w" by (rule save_succeeds_disk)
    with ok call [OF nv] have w1: "streamChatOnce e ?v = (Inr ok_result, ?w1)"
      and m: "messages ?w1 = messages ?v @ [?m]"
      and s: "stderr ?w1 = stderr ?v" "sleeps ?w1 = sleeps ?v"
        "length (requests ?w1) = length (requests ?v) + 1"
      by (simp_all add: prod_eq_iff)
    have "attempts (streamChatOnce e) e 0 0 ?v = (Inr (), 0 + 1, stdout_write [Prompt] ?w1)"
      using w1 by (intro attempts_ok [where exec = "streamChatOnce e" and r = ok_result])
        (simp_all add: ok_result_def)
    then have "askGPTStreamWithRetry e userText w = (Inr (), 1, stdout_write [Prompt] ?w1)"
      by (simp add: askGPTStreamWithRetry_def retry_with_def)
    with m s have "\<exists>w2. askGPTStreamWithRetry e userText w = (Inr (), 1, w2)
         \<and> messages w2 = messages w @ [\<lparr>role = User, content = userText\<rparr>, ?m]
         \<and> stderr w2 = stderr w \<and> sleeps w2 = sleeps w
         \<and> length (requests w2) = length (requests w) + 1"
      by simp
    moreover from ok call [OF assms(1)] have "fst (streamChatOnce e w) = Inr ok_result" by simp
    ultimately show ?thesis by (simp add: ok_result_def)
  qed
  from first second show ?thesis by blast
qed

lemma sample_partial_frames:
  "stream_frames sample_env sample_partial =
     [Delta (str ''Hel''), Unrecognized, Delta (str ''lo''), Unrecognized]"
  by (simp add: sample_partial_def frame_simps dec_simps)

lemma sample_partial_delivered:
  assumes "content_of e = sample_content_of"
  shows "delivered_frames e sample_partial =
     [Delta (str ''Hel''), Unrecognized, Delta (str ''lo''), Unrecognized]"
proof -
  have "stream_frames e sample_partial = stream_frames sample_env sample_partial"
    by (rule stream_frames_content_of) (simp add: assms sample_env_fields)
  then have "through_terminator (delivered_frames e sample_partial) =
      [Delta (str ''Hel''), Unrecognized, Delta (str ''lo''), Unrecognized]"
    by (simp add: sample_partial_frames)
      (simp add: stream_frames_eq delivered_frames_def delivered_lines_def)
  moreover have "Terminator \<notin> set (delivered_frames e sample_partial)"
    using Terminator_through [of "delivered_frames e sample_partial"] calculation by simp
  ultimately show ?thesis by (simp add: through_terminator_id)
qed

theorem partial_output_preserved_witness:
  "messages (snd (streamChatOnce sample_env_autosave
      (no_world\<lparr>network := [Response (streaming sample_partial)], disk := [True]\<rparr>))) =
     [\<lparr>role = Assistant, content = str ''Hello''\<rparr>]
   \<and> fst (streamChatOnce sample_env_autosave
      (no_world\<lparr>network := [Response (streaming sample_partial)], disk := [True]\<rparr>)) =
     Inr ok_result
   \<and> (\<exists>w2. askGPTStreamWithRetry sample_env_autosave (str ''hi'')
              (no_world\<lparr>network := [Response (streaming sample_partial)], disk := [True]\<rparr>)
            = (Inr (), 1, w2)
          \<and> messages w2 = [\<lparr>role = User, content = str ''hi''\<rparr>,
                            \<lparr>role = Assistant, content = str ''Hello''\<rparr>]
          \<and> stderr w2 = [] \<and> sleeps w2 = [] \<and> length (requests w2) = 1)"
  using partial_output_preserved
      [of "no_world\<lparr>network := [Response (streaming sample_partial)], disk := [True]\<rparr>"
      "streaming sample_partial" "[]" "\<lparr>chunks = sample_partial, aborted = False\<rparr>"
      sample_env_autosave "str ''hi''"]
  by (simp add: sample_partial_delivered sample_env_fields no_world_def streaming_def str_def
      save_succeeds_def)

text \<open>
  C7 as stated fails, in three ways. A body of two data lines of which the second has
  no line feed after it: the call returns \<open>{ok: true}\<close> with the message \<open>Hel\<close>, the
  second delta is lost. A body that delivers the two deltas and then fails instead of
  closing: the call rejects, no message is pushed, and the run of
  \<open>askGPTStreamWithRetry\<close> rejects with it. A body of two deltas that closes, with
  \<open>CONFIG.autosave\<close> on and a write that rejects: the call rejects after pushing the
  message.
\<close>

lemma sample_partial_cut_frames:
  "stream_frames sample_env sample_partial_cut = [Delta (str ''Hel''), Unrecognized]"
  by (simp add: sample_partial_cut_def frame_simps dec_simps)

theorem partial_output_lost:
  \<open>parse_line sample_content_of (str ''data: {"choices":[{"delta":{"content":"lo"}}]}'')
     = Delta (str ''lo'')
   \<and> streamChatOnce sample_env
       (no_world\<lparr>network := [Response (streaming sample_partial_cut)]\<rparr>) =
       (Inr ok_result,
        no_world\<lparr>requests := [[]],
                 stdout := [Styled Cyan (str ''\<newline>GPT> ''), Styled Cyan (str ''H''),
                            Styled Cyan (str ''e''), Styled Cyan (str ''l''),
                            Unstyled [nl, nl]],
                 messages := [\<lparr>role = Assistant, content = str ''Hel''\<rparr>]\<rparr>)
   \<and> fst (streamChatOnce sample_env
       (no_world\<lparr>network := [Response (aborting sample_partial)]\<rparr>)) = Inl BodyRejected
   \<and> messages (snd (streamChatOnce sample_env
       (no_world\<lparr>network := [Response (aborting sample_partial)]\<rparr>))) = []
   \<and> fst (askGPTStreamWithRetry sample_env (str ''hi'')
       (no_world\<lparr>network := [Response (aborting sample_partial)]\<rparr>)) = Inl BodyRejected
   \<and> fst (streamChatOnce sample_env_autosave
       (no_world\<lparr>network := [Response (streaming sample_partial)], disk := [False]\<rparr>)) =
       Inl SaveRejected\<close>
proof -
  have 1: \<open>parse_line sample_content_of (str ''data: {"choices":[{"delta":{"content":"lo"}}]}'')
     = Delta (str ''lo'')\<close>
    by (simp add: parse_line_def trim_def is_space_def startsWith_def slice_from_def
      sample_content_of_def nl_def str_def)
  have 2: "streamChatOnce sample_env
       (no_world\<lparr>network := [Response (streaming sample_partial_cut)]\<rparr>) =
       (Inr ok_result,
        no_world\<lparr>requests := [[]],
                 stdout := [Styled Cyan (str ''\<newline>GPT> ''), Styled Cyan (str ''H''),
                            Styled Cyan (str ''e''), Styled Cyan (str ''l''),
                            Unstyled [nl, nl]],
                 messages := [\<lparr>role = Assistant, content = str ''Hel''\<rparr>]\<rparr>)"
    by (subst streamChatOnce_stream [where res = "streaming sample_partial_cut" and rest = "[]"
          and b = "\<lparr>chunks = sample_partial_cut, aborted = False\<rparr>"])
      (simp_all add: streaming_def no_world_def sample_partial_cut_frames Let_def
        sample_env_fields save_and_return_def shown_def styled_out_def fmt_simps
        stdout_write_def push_def)
  have 3: "fst (streamChatOnce sample_env
       (no_world\<lparr>network := [Response (aborting sample_partial)]\<rparr>)) = Inl BodyRejected"
    "messages (snd (streamChatOnce sample_env
       (no_world\<lparr>network := [Response (aborting sample_partial)]\<rparr>))) = []"
    by (simp_all add: streamChatOnce_stream [where res = "aborting sample_partial"
          and rest = "[]" and b = "\<lparr>chunks = sample_partial, aborted = True\<rparr>"]
        aborting_def no_world_def sample_partial_frames Let_def)
  let ?v = "push \<lparr>role = User, content = str ''hi''\<rparr>
      (no_world\<lparr>network := [Response (aborting sample_partial)]\<rparr>)"
  have 4: "streamChatOnce sample_env ?v = (Inl BodyRejected, snd (streamChatOnce sample_env ?v))"
    by (simp add: streamChatOnce_stream [where res = "aborting sample_partial"
          and rest = "[]" and b = "\<lparr>chunks = sample_partial, aborted = True\<rparr>"]
        aborting_def no_world_def sample_partial_frames Let_def)
  have "attempts (streamChatOnce sample_env) sample_env 0 0 ?v =
      (Inl BodyRejected, 0 + 1, snd (streamChatOnce sample_env ?v))"
    using 4 by (intro attempts_Inl [where exec = "streamChatOnce sample_env"]) simp_all
  then have 5: "fst (askGPTStreamWithRetry sample_env (str ''hi'')
       (no_world\<lparr>network := [Response (aborting sample_partial)]\<rparr>)) = Inl BodyRejected"
    by (simp add: askGPTStreamWithRetry_def retry_with_def)
  have "stream_frames sample_env_autosave sample_partial = stream_frames sample_env sample_partial"
    by (rule stream_frames_content_of) (simp add: sample_env_fields)
  then have 6: "fst (streamChatOnce sample_env_autosave
       (no_world\<lparr>network := [Response (streaming sample_partial)], disk := [False]\<rparr>)) =
       Inl SaveRejected"
    by (simp add: streamChatOnce_stream [where res = "streaming sample_partial"
          and rest = "[]" and b = "\<lparr>chunks = sample_partial, aborted = False\<rparr>"]
        streaming_def no_world_def sample_partial_frames Let_def sample_env_fields
        save_and_return_def saveSession_def)
  from 1 2 3 5 6 show ?thesis by simp
qed

section \<open>Chunk boundaries\<close>

text \<open>
  C4. The frames of a body do not depend on how it is cut into chunks, a cut inside a
  multi-byte character included: the loop over any sequence of chunks, started by a
  fresh call, takes its lines for the same frames, in the same order, as the loop over
  the one chunk that is their concatenation, and it ends in the same state.
\<close>

theorem chunk_boundary_invariance:
  "stream_frames e cs = stream_frames e [concat cs]
   \<and> handle_chunks e cs (new_locals, w) = handle_chunks e [concat cs] (new_locals, w)"
proof -
  have "feed_all (new_TextDecoder, []) cs = feed_all (new_TextDecoder, []) [concat cs]"
    by (simp add: feed_all_concat feed_all_single)
  moreover have "decoder new_locals = new_TextDecoder" "buffer new_locals = []"
    by (simp_all add: new_locals_def)
  ultimately show ?thesis
    by (simp add: stream_frames_eq handle_chunks_eq del: feed_all.simps)
qed

lemma sample_chunks_frames:
  "stream_frames sample_env sample_chunks = [Delta [0xE9], Unrecognized, Terminator]"
  by (simp add: sample_chunks_def frame_simps dec_simps)

theorem chunk_boundary_invariance_witness:
  "stream_frames sample_env [concat sample_chunks] = [Delta [0xE9], Unrecognized, Terminator]
   \<and> handle_chunks sample_env sample_chunks (new_locals, no_world) =
       handle_chunks sample_env [concat sample_chunks] (new_locals, no_world)"
  using chunk_boundary_invariance [of sample_env sample_chunks no_world] sample_chunks_frames
  by simp

section \<open>Lines delivered and the fragment kept\<close>

text \<open>
  C3, as the code has it. Feeding the chunks of a body cuts the decoded text at its
  line feeds: the lines delivered, each followed by a line feed, and then the fragment
  left in \<open>buffer\<close> are the decoded text itself, so nothing before the last line feed is
  lost or reordered and the fragment is carried from chunk to chunk. The frames of the
  body are the delivered lines, in order, up to the first terminator. The fragment left
  when the body ends is in none of them: the code has no final flush.
\<close>

theorem chunk_decoder_lines:
  "(case feed_all (new_TextDecoder, []) cs of
      (lines, (d, buf)) \<Rightarrow>
        concat (map (\<lambda>l. l @ [nl]) lines) @ buf = fst (decode new_TextDecoder (concat cs))
        \<and> nl \<notin> set (concat lines) \<and> nl \<notin> set buf
        \<and> stream_frames e cs = through_terminator (map (parse_line (content_of e)) lines))"
proof -
  obtain t d1 where t: "decode new_TextDecoder (concat cs) = (t, d1)"
    by (cases "decode new_TextDecoder (concat cs)")
  have f: "feed_all (new_TextDecoder, []) cs = (butlast (split_nl t), (d1, last (split_nl t)))"
    using feed_eq [OF t, of "[]"] by (simp add: feed_all_concat)
  have "nl \<notin> set l" if "l \<in> set (butlast (split_nl t))" for l
    using that by (auto dest: in_set_butlastD split_nl_lines_no_nl)
  moreover have "nl \<notin> set (last (split_nl t))"
    using split_nl_lines_no_nl [of "last (split_nl t)" t] split_nl_not_Nil [of t] by simp
  ultimately show ?thesis
    using split_nl_join [of t] by (auto simp: f t stream_frames_eq)
qed

lemma sample_chunks_tail_lines:
  \<open>feed_all (new_TextDecoder, []) sample_chunks_tail =
     ([str ''data: {"choices":[{"delta":{"content":"'' @ [0xE9] @ str ''"}}]}'', [],
       str ''data: [DONE]''],
      (new_TextDecoder\<lparr>bom_seen := True\<rparr>, str ''tail''))\<close>
  by (simp add: sample_chunks_tail_def sample_chunks_def feed_def dec_simps nl_def)

theorem chunk_decoder_lines_witness:
  \<open>fst (decode new_TextDecoder (concat sample_chunks_tail)) =
     str ''data: {"choices":[{"delta":{"content":"'' @ [0xE9] @
     str ''"}}]}\<newline>\<newline>data: [DONE]\<newline>tail''
   \<and> stream_frames sample_env sample_chunks_tail = [Delta [0xE9], Unrecognized, Terminator]\<close>
  using chunk_decoder_lines [of sample_chunks_tail sample_env]
  by (simp add: sample_chunks_tail_lines)
    (simp add: parse_line_def trim_def is_space_def startsWith_def slice_from_def
      sample_content_of_def sample_env_def nl_def str_def)

text \<open>
  C3 as stated fails: a body whose only line has no line feed after it. The line would
  be a delta, but it is never delivered: no line is fed, the text stays in the buffer,
  the call finds no frame and pushes no message.
\<close>

lemma sample_unterminated_lines:
  \<open>feed_all (new_TextDecoder, []) sample_unterminated =
     ([], (new_TextDecoder\<lparr>bom_seen := True\<rparr>,
           str ''data: {"choices":[{"delta":{"content":"Hi"}}]}''))\<close>
  by (simp add: sample_unterminated_def feed_def dec_simps nl_def)

theorem unterminated_last_line_dropped:
  \<open>parse_line sample_content_of (str ''data: {"choices":[{"delta":{"content":"Hi"}}]}'')
     = Delta (str ''Hi'')
   \<and> fst (feed_all (new_TextDecoder, []) sample_unterminated) = []
   \<and> snd (snd (feed_all (new_TextDecoder, []) sample_unterminated))
       = str ''data: {"choices":[{"delta":{"content":"Hi"}}]}''
   \<and> stream_frames sample_env sample_unterminated = []
   \<and> messages (snd (streamChatOnce sample_env
        (no_world\<lparr>network := [Response (streaming sample_unterminated)]\<rparr>))) = []\<close>
proof -
  have 1: "stream_frames sample_env sample_unterminated = []"
    by (simp add: stream_frames_eq sample_unterminated_lines)
  have 2: "messages (snd (streamChatOnce sample_env
        (no_world\<lparr>network := [Response (streaming sample_unterminated)]\<rparr>))) = []"
    by (subst streamChatOnce_stream [where res = "streaming sample_unterminated" and rest = "[]"
          and b = "\<lparr>chunks = sample_unterminated, aborted = False\<rparr>"])
      (simp_all add: streaming_def no_world_def 1 Let_def sample_env_fields save_and_return_def)
  have 3: \<open>parse_line sample_content_of (str ''data: {"choices":[{"delta":{"content":"Hi"}}]}'')
     = Delta (str ''Hi'')\<close>
    by (simp add: parse_line_def trim_def is_space_def startsWith_def slice_from_def
      sample_content_of_def nl_def str_def)
  show ?thesis by (simp add: 1 2 3 sample_unterminated_lines)
qed

section \<open>The retry loop around streamChatOnce\<close>

lemma streamChatOnce_requests:
  "requests (snd (streamChatOnce e w)) = requests w @ [messages w]"
proof (cases "network w")
  case Nil
  then show ?thesis by (simp add: streamChatOnce_rejected)
next
  case (Cons x rest)
  show ?thesis
  proof (cases x)
    case Rejected
    with Cons show ?thesis by (simp add: streamChatOnce_rejected)
  next
    case (Response res)
    show ?thesis
    proof (cases "\<not> res_ok res \<or> res_body res = None")
      case True
      from Cons Response have n: "network w = Response res # rest" by simp
      show ?thesis by (simp add: streamChatOnce_failure [OF n True] Let_def)
    next
      case False
      then obtain b where b: "res_ok res" "res_body res = Some b" by auto
      from Cons Response have n: "network w = Response res # rest" by simp
      show ?thesis by (simp add: streamChatOnce_stream [OF n b] Let_def)
    qed
  qed
qed

lemma streamChatOnce_messages:
  "\<exists>as. messages (snd (streamChatOnce e w)) = messages w @ as
      \<and> (as = [] \<or> ((\<forall>r. fst (streamChatOnce e w) = Inr r \<longrightarrow> ok r)
                      \<and> (\<exists>c. as = [\<lparr>role = Assistant, content = c\<rparr>])))"
proof (cases "network w")
  case Nil
  then show ?thesis by (simp add: streamChatOnce_rejected)
next
  case (Cons x rest)
  show ?thesis
  proof (cases x)
    case Rejected
    with Cons show ?thesis by (simp add: streamChatOnce_rejected)
  next
    case (Response res)
    show ?thesis
    proof (cases "\<not> res_ok res \<or> res_body res = None")
      case True
      from Cons Response have n: "network w = Response res # rest" by simp
      show ?thesis by (simp add: streamChatOnce_failure [OF n True] Let_def)
    next
      case False
      then obtain b where b: "res_ok res" "res_body res = Some b" by auto
      from Cons Response have n: "network w = Response res # rest" by simp
      have o1: "ok r" if "fst (finish e rep v) = Inr r" for rep v r
        using finish_outcome [of e rep v] that by (auto simp: ok_result_def)
      have o2: "ok r" if "fst (save_and_return e v) = Inr r" for v r
        using save_and_return_outcome [of e v] that by (auto simp: ok_result_def)
      show ?thesis
        by (auto simp: streamChatOnce_stream [OF n b] Let_def dest: o1 o2)
    qed
  qed
qed

lemma attempts_effects:
  "attempt \<le> MAX_RETRIES \<Longrightarrow>
   length (requests (snd (snd (attempts (streamChatOnce e) e attempt calls w)))) + calls =
     length (requests w) + fst (snd (attempts (streamChatOnce e) e attempt calls w))
   \<and> (\<exists>as. messages (snd (snd (attempts (streamChatOnce e) e attempt calls w))) = messages w @ as
        \<and> (as = [] \<or> (\<exists>c. as = [\<lparr>role = Assistant, content = c\<rparr>])))"
proof (induction "MAX_RETRIES - attempt" arbitrary: attempt calls w)
  case 0
  then have a: "attempt = MAX_RETRIES" by simp
  obtain x w1 where x: "streamChatOnce e w = (x, w1)" by (cases "streamChatOnce e w")
  from streamChatOnce_requests [of e w] x have rq: "requests w1 = requests w @ [messages w]"
    by simp
  from streamChatOnce_messages [of e w] x obtain as where
    ms: "messages w1 = messages w @ as" "as = [] \<or> (\<exists>c. as = [\<lparr>role = Assistant, content = c\<rparr>])"
    by auto
  show ?case
  proof (cases x)
    case (Inl err)
    with x a rq ms show ?thesis by (simp add: attempts_Inl)
  next
    case (Inr r)
    with x a rq ms show ?thesis
      by (cases "ok r") (simp_all add: attempts_ok attempts_last)
  qed
next
  case (Suc n)
  then have a: "attempt < MAX_RETRIES" by simp
  obtain x w1 where x: "streamChatOnce e w = (x, w1)" by (cases "streamChatOnce e w")
  from streamChatOnce_requests [of e w] x have rq: "requests w1 = requests w @ [messages w]"
    by simp
  from streamChatOnce_messages [of e w] x obtain as where
    ms: "messages w1 = messages w @ as"
      "as = [] \<or> ((\<forall>r. x = Inr r \<longrightarrow> ok r)
                  \<and> (\<exists>c. as = [\<lparr>role = Assistant, content = c\<rparr>]))"
    by auto
  show ?case
  proof (cases x)
    case (Inl err)
    with x a rq ms show ?thesis by (simp add: attempts_Inl)
  next
    case (Inr r)
    show ?thesis
    proof (cases "ok r \<or> \<not> isRetriable (status_or_0 r)")
      case True
      with x a Inr rq ms show ?thesis
        by (cases "ok r") (auto simp: attempts_ok attempts_fatal)
    next
      case False
      with Inr ms have as: "as = []" by auto
      let ?w = "sleep (BASE_DELAY_MS * 2 ^ attempt)
          (console_error (TransientError (status_or_0 r) (BASE_DELAY_MS * 2 ^ attempt)) w1)"
      from False x a Inr have eq: "attempts (streamChatOnce e) e attempt calls w =
          attempts (streamChatOnce e) e (attempt + 1) (calls + 1) ?w"
        by (simp add: attempts_retry)
      from Suc.hyps(2) a have "n = MAX_RETRIES - (attempt + 1)" by simp
      from Suc.hyps(1) [OF this, of "calls + 1" ?w] a rq ms(1) as
      show ?thesis unfolding eq by simp
    qed
  qed
qed


lemma failed_call:
  assumes "network v = Response res # rest" and "transport_failure res"
  shows "\<exists>r u. streamChatOnce e v = (Inr r, u) \<and> \<not> ok r \<and> status r = Some (res_status res)
           \<and> messages u = messages v \<and> requests u = requests v @ [messages v]
           \<and> network u = rest \<and> sleeps u = sleeps v \<and> stdout u = stdout v"
proof -
  from assms(2) have "\<not> res_ok res \<or> res_body res = None" by (simp add: transport_failure_def)
  from streamChatOnce_failure [OF assms(1) this, of e] show ?thesis
    by (simp add: Let_def)
qed

lemma attempts_after_retriable:
  assumes "attempt < MAX_RETRIES" and "network v = Response res # rest" and "retriable_failure res"
  shows "\<exists>v'. attempts (streamChatOnce e) e attempt calls v =
                attempts (streamChatOnce e) e (attempt + 1) (calls + 1) v'
           \<and> messages v' = messages v \<and> requests v' = requests v @ [messages v]
           \<and> network v' = rest \<and> sleeps v' = sleeps v @ [BASE_DELAY_MS * 2 ^ attempt]
           \<and> stdout v' = stdout v"
proof -
  from assms(3) have tf: "transport_failure res" and rt: "isRetriable (res_status res)"
    by (simp_all add: retriable_failure_def)
  from failed_call [OF assms(2) tf, of e] obtain r u where
    c: "streamChatOnce e v = (Inr r, u)" "\<not> ok r" "status r = Some (res_status res)"
    and u: "messages u = messages v" "requests u = requests v @ [messages v]"
      "network u = rest" "sleeps u = sleeps v" "stdout u = stdout v"
    by blast
  from c(3) rt have "isRetriable (status_or_0 r)" by (simp add: status_or_0_def)
  from attempts_retry [where exec = "streamChatOnce e", OF assms(1) c(1) c(2) this, of e calls] u
  show ?thesis by auto
qed

lemma attempts_terminal:
  assumes "attempt \<le> MAX_RETRIES" and "network v = Response res # rest"
    and "transport_failure res" and "\<not> isRetriable (res_status res) \<or> attempt = MAX_RETRIES"
  shows "\<exists>v'. attempts (streamChatOnce e) e attempt calls v = (Inr (), calls + 1, v')
           \<and> messages v' = messages v \<and> requests v' = requests v @ [messages v]
           \<and> network v' = rest \<and> sleeps v' = sleeps v
           \<and> RequestFailed (res_status res) \<in> set (stderr v')"
proof -
  from failed_call [OF assms(2,3), of e] obtain r u where
    c: "streamChatOnce e v = (Inr r, u)" "\<not> ok r" "status r = Some (res_status res)"
    and u: "messages u = messages v" "requests u = requests v @ [messages v]"
      "network u = rest" "sleeps u = sleeps v"
    by blast
  from c(3) have s: "status_or_0 r = res_status res" by (simp add: status_or_0_def)
  from assms(4) show ?thesis
  proof
    assume "\<not> isRetriable (res_status res)"
    with s have "\<not> isRetriable (status_or_0 r)" by simp
    from attempts_fatal [where exec = "streamChatOnce e", OF assms(1) c(1) c(2) this, of e calls] u s
    show ?thesis by auto
  next
    assume "attempt = MAX_RETRIES"
    with attempts_last [where exec = "streamChatOnce e", OF c(1) c(2), of e calls] u s
    show ?thesis by auto
  qed
qed

section \<open>The bound on attempts\<close>

text \<open>
  C5. With \<open>MAX_RETRIES = 3\<close>: when the first four responses are transport failures with
  a retriable status, \<open>askGPTStreamWithRetry\<close> calls \<open>streamChatOnce\<close> exactly four
  times (four requests are posted, each with the conversation and the user's message),
  sleeps 2000, 4000 and 8000 ms in between, and reports the failure with the status of
  the fourth. When the first response is a transport failure with a status that is not
  retriable, it calls \<open>streamChatOnce\<close> exactly once and reports the failure. In every
  run it calls \<open>streamChatOnce\<close> at most \<open>MAX_RETRIES + 1\<close> times, and posts as many
  requests as it makes calls.
\<close>

theorem retry_bound:
  "(network w = Response r0 # Response r1 # Response r2 # Response r3 # rest
      \<and> retriable_failure r0 \<and> retriable_failure r1 \<and> retriable_failure r2
      \<and> retriable_failure r3 \<longrightarrow>
      (\<exists>w'. askGPTStreamWithRetry e userText w = (Inr (), 4, w')
         \<and> requests w' = requests w @
             replicate 4 (messages w @ [\<lparr>role = User, content = userText\<rparr>])
         \<and> sleeps w' = sleeps w @ [2000, 4000, 8000]
         \<and> RequestFailed (res_status r3) \<in> set (stderr w')
         \<and> messages w' = messages w @ [\<lparr>role = User, content = userText\<rparr>]
         \<and> network w' = rest))
   \<and> (network w = Response r0 # rest \<and> fatal_failure r0 \<longrightarrow>
      (\<exists>w'. askGPTStreamWithRetry e userText w = (Inr (), 1, w')
         \<and> requests w' = requests w @ [messages w @ [\<lparr>role = User, content = userText\<rparr>]]
         \<and> sleeps w' = sleeps w
         \<and> RequestFailed (res_status r0) \<in> set (stderr w')
         \<and> messages w' = messages w @ [\<lparr>role = User, content = userText\<rparr>]))
   \<and> MAX_RETRIES = 3
   \<and> fst (snd (askGPTStreamWithRetry e userText w)) \<le> MAX_RETRIES + 1
   \<and> length (requests (snd (snd (askGPTStreamWithRetry e userText w)))) =
       length (requests w) + fst (snd (askGPTStreamWithRetry e userText w))"
proof -
  let ?u = "\<lparr>role = User, content = userText\<rparr>"
  let ?v = "push ?u w"
  let ?A = "attempts (streamChatOnce e) e"
  have run: "askGPTStreamWithRetry e userText w = ?A 0 0 ?v"
    by (simp add: askGPTStreamWithRetry_def retry_with_def)
  have four: "\<exists>w'. ?A 0 0 ?v = (Inr (), 4, w')
         \<and> requests w' = requests w @ replicate 4 (messages w @ [?u])
         \<and> sleeps w' = sleeps w @ [2000, 4000, 8000]
         \<and> RequestFailed (res_status r3) \<in> set (stderr w')
         \<and> messages w' = messages w @ [?u]
         \<and> network w' = rest"
    if n: "network w = Response r0 # Response r1 # Response r2 # Response r3 # rest"
      and r: "retriable_failure r0" "retriable_failure r1" "retriable_failure r2"
        "retriable_failure r3"
  proof -
    from n have n0: "network ?v = Response r0 # Response r1 # Response r2 # Response r3 # rest"
      by simp
    have lt: "0 < MAX_RETRIES" "1 < MAX_RETRIES" "2 < MAX_RETRIES" "3 \<le> MAX_RETRIES"
      by (simp_all add: MAX_RETRIES_def)
    from attempts_after_retriable [OF lt(1) n0 r(1), of e 0] obtain v1 where
      1: "?A 0 0 ?v = ?A (0 + 1) (0 + 1) v1" "messages v1 = messages ?v"
        "requests v1 = requests ?v @ [messages ?v]"
        "network v1 = Response r1 # Response r2 # Response r3 # rest"
        "sleeps v1 = sleeps ?v @ [BASE_DELAY_MS * 2 ^ 0]"
      by blast
    from attempts_after_retriable [OF lt(2) 1(4) r(2), of e 1] obtain v2 where
      2: "?A 1 1 v1 = ?A (1 + 1) (1 + 1) v2" "messages v2 = messages v1"
        "requests v2 = requests v1 @ [messages v1]"
        "network v2 = Response r2 # Response r3 # rest"
        "sleeps v2 = sleeps v1 @ [BASE_DELAY_MS * 2 ^ 1]"
      by blast
    from attempts_after_retriable [OF lt(3) 2(4) r(3), of e 2] obtain v3 where
      3: "?A 2 2 v2 = ?A (2 + 1) (2 + 1) v3" "messages v3 = messages v2"
        "requests v3 = requests v2 @ [messages v2]"
        "network v3 = Response r3 # rest"
        "sleeps v3 = sleeps v2 @ [BASE_DELAY_MS * 2 ^ 2]"
      by blast
    from r(4) have "transport_failure r3" by (simp add: retriable_failure_def)
    from attempts_terminal [OF lt(4) 3(4) this, of e 3] obtain v4 where
      4: "?A 3 3 v3 = (Inr (), 3 + 1, v4)" "messages v4 = messages v3"
        "requests v4 = requests v3 @ [messages v3]"
        "network v4 = rest" "sleeps v4 = sleeps v3"
        "RequestFailed (res_status r3) \<in> set (stderr v4)"
      by (auto simp: MAX_RETRIES_def)
    have ar: "(0::nat) + 1 = 1" "(1::nat) + 1 = 2" "(2::nat) + 1 = 3" "(3::nat) + 1 = 4"
      by simp_all
    have e1: "?A 0 0 ?v = ?A 1 1 v1" using 1(1) [unfolded ar] .
    have e2: "?A 1 1 v1 = ?A 2 2 v2" using 2(1) [unfolded ar] .
    have e3: "?A 2 2 v2 = ?A 3 3 v3" using 3(1) [unfolded ar] .
    have e4: "?A 3 3 v3 = (Inr (), 4, v4)" using 4(1) [unfolded ar] .
    have "?A 0 0 ?v = (Inr (), 4, v4)" by (simp only: e1 e2 e3 e4)
    moreover have "requests v4 = requests w @ replicate 4 (messages w @ [?u])"
      by (simp add: 1 2 3 4 numeral_eq_Suc)
    moreover have "sleeps v4 = sleeps w @ [2000, 4000, 8000]"
      by (simp add: 1 2 3 4 BASE_DELAY_MS_def)
    moreover have "messages v4 = messages w @ [?u]" by (simp add: 1 2 3 4)
    ultimately show ?thesis using 4(4,6) by blast
  qed
  have one: "\<exists>w'. ?A 0 0 ?v = (Inr (), 1, w')
         \<and> requests w' = requests w @ [messages w @ [?u]]
         \<and> sleeps w' = sleeps w
         \<and> RequestFailed (res_status r0) \<in> set (stderr w')
         \<and> messages w' = messages w @ [?u]"
    if n: "network w = Response r0 # rest" and f: "fatal_failure r0"
  proof -
    from n have n0: "network ?v = Response r0 # rest" by simp
    from f have "transport_failure r0" "\<not> isRetriable (res_status r0)"
      by (simp_all add: fatal_failure_def)
    from attempts_terminal [OF _ n0 this(1), of 0 e 0] this(2) show ?thesis
      by (auto simp: MAX_RETRIES_def)
  qed
  have bound: "fst (snd (?A 0 0 ?v)) \<le> MAX_RETRIES + 1"
    using attempts_calls_bounds [of 0 0 "streamChatOnce e" e ?v] by simp
  have count: "length (requests (snd (snd (?A 0 0 ?v)))) = length (requests w) + fst (snd (?A 0 0 ?v))"
    using attempts_effects [of 0 e 0 ?v] by simp
  from four one bound count show ?thesis
    unfolding run by (simp add: MAX_RETRIES_def)
qed


lemmas failure_simps = no_world_def failing_def retriable_failure_def fatal_failure_def
  transport_failure_def isRetriable_def TRANSIENT_CODES_def

theorem retry_bound_witness:
  "(\<exists>w'. askGPTStreamWithRetry sample_env (str ''hi'')
            (no_world\<lparr>network := [Response (failing 429), Response (failing 500),
                                   Response (failing 503), Response (failing 502)]\<rparr>)
          = (Inr (), 4, w')
       \<and> requests w' = replicate 4 [\<lparr>role = User, content = str ''hi''\<rparr>]
       \<and> sleeps w' = [2000, 4000, 8000]
       \<and> RequestFailed 502 \<in> set (stderr w')
       \<and> messages w' = [\<lparr>role = User, content = str ''hi''\<rparr>]
       \<and> network w' = [])
   \<and> (\<exists>w'. askGPTStreamWithRetry sample_env (str ''hi'')
            (no_world\<lparr>network := [Response (failing 400)]\<rparr>)
          = (Inr (), 1, w')
       \<and> requests w' = [[\<lparr>role = User, content = str ''hi''\<rparr>]]
       \<and> sleeps w' = []
       \<and> RequestFailed 400 \<in> set (stderr w')
       \<and> messages w' = [\<lparr>role = User, content = str ''hi''\<rparr>])"
  using
    retry_bound [of "no_world\<lparr>network := [Response (failing 429), Response (failing 500),
                                   Response (failing 503), Response (failing 502)]\<rparr>"
      "failing 429" "failing 500" "failing 503" "failing 502" "[]" sample_env "str ''hi''"]
    retry_bound [of "no_world\<lparr>network := [Response (failing 400)]\<rparr>"
      "failing 400" "failing 400" "failing 400" "failing 400" "[]" sample_env "str ''hi''"]
  by (simp add: failure_simps)

section \<open>One user message for each run\<close>

text \<open>
  C6. Whatever the network does and however many attempts are made (at least one, at
  most \<open>MAX_RETRIES + 1\<close>), a run of \<open>askGPTStreamWithRetry\<close> leaves the conversation as
  it was, followed by the user's message, followed by nothing or by one assistant
  message: exactly one user message has been appended.
\<close>

theorem single_user_append:
  "(\<exists>as. messages (snd (snd (askGPTStreamWithRetry e userText w))) =
            messages w @ \<lparr>role = User, content = userText\<rparr> # as
         \<and> (as = [] \<or> (\<exists>c. as = [\<lparr>role = Assistant, content = c\<rparr>])))
   \<and> length (filter (\<lambda>m. role m = User) (messages (snd (snd (askGPTStreamWithRetry e userText w)))))
       = length (filter (\<lambda>m. role m = User) (messages w)) + 1
   \<and> 1 \<le> fst (snd (askGPTStreamWithRetry e userText w))
   \<and> fst (snd (askGPTStreamWithRetry e userText w)) \<le> MAX_RETRIES + 1"
proof -
  let ?u = "\<lparr>role = User, content = userText\<rparr>"
  let ?R = "attempts (streamChatOnce e) e 0 0 (push ?u w)"
  have run: "askGPTStreamWithRetry e userText w = ?R"
    by (simp add: askGPTStreamWithRetry_def retry_with_def)
  from attempts_effects [of 0 e 0 "push ?u w"] obtain as where
    as: "messages (snd (snd ?R)) = messages w @ ?u # as"
      "as = [] \<or> (\<exists>c. as = [\<lparr>role = Assistant, content = c\<rparr>])"
    by auto
  from as have "length (filter (\<lambda>m. role m = User) (messages (snd (snd ?R))))
       = length (filter (\<lambda>m. role m = User) (messages w)) + 1"
    by auto
  moreover from attempts_calls_bounds [of 0 0 "streamChatOnce e" e "push ?u w"]
  have "1 \<le> fst (snd ?R)" "fst (snd ?R) \<le> MAX_RETRIES + 1" by simp_all
  ultimately show ?thesis using as unfolding run by blast
qed

theorem single_user_append_witness:
  "messages (snd (snd (askGPTStreamWithRetry sample_env (str ''hi'')
      (no_world\<lparr>network := [Response (failing 503), Response (failing 429),
                             Response (streaming sample_partial)]\<rparr>)))) =
     [\<lparr>role = User, content = str ''hi''\<rparr>, \<lparr>role = Assistant, content = str ''Hello''\<rparr>]
   \<and> fst (snd (askGPTStreamWithRetry sample_env (str ''hi'')
      (no_world\<lparr>network := [Response (failing 503), Response (failing 429),
                             Response (streaming sample_partial)]\<rparr>))) = 3
   \<and> length (filter (\<lambda>m. role m = User) (messages (snd (snd (askGPTStreamWithRetry sample_env
      (str ''hi'')
      (no_world\<lparr>network := [Response (failing 503), Response (failing 429),
                             Response (streaming sample_partial)]\<rparr>)))))) = 1"
proof -
  let ?W = "no_world\<lparr>network := [Response (failing 503), Response (failing 429),
                             Response (streaming sample_partial)]\<rparr>"
  let ?u = "\<lparr>role = User, content = str ''hi''\<rparr>"
  let ?A = "attempts (streamChatOnce sample_env) sample_env"
  have lt: "0 < MAX_RETRIES" "1 < MAX_RETRIES" "2 \<le> MAX_RETRIES"
    by (simp_all add: MAX_RETRIES_def)
  have ar: "(0::nat) + 1 = 1" "(1::nat) + 1 = 2" "(2::nat) + 1 = 3" by simp_all
  have n0: "network (push ?u ?W) = Response (failing 503) #
      [Response (failing 429), Response (streaming sample_partial)]"
    by (simp add: no_world_def)
  have r: "retriable_failure (failing 503)" "retriable_failure (failing 429)"
    by (simp_all add: failure_simps)
  from attempts_after_retriable [OF lt(1) n0 r(1), of sample_env 0] obtain v1 where
    1: "?A 0 0 (push ?u ?W) = ?A (0 + 1) (0 + 1) v1" "messages v1 = messages (push ?u ?W)"
      "network v1 = [Response (failing 429), Response (streaming sample_partial)]"
    by blast
  from attempts_after_retriable [OF lt(2) 1(3) r(2), of sample_env 1] obtain v2 where
    2: "?A 1 1 v1 = ?A (1 + 1) (1 + 1) v2" "messages v2 = messages v1"
      "network v2 = [Response (streaming sample_partial)]"
    by blast
  have 3: "streamChatOnce sample_env v2 = (Inr ok_result, snd (streamChatOnce sample_env v2))"
    "messages (snd (streamChatOnce sample_env v2)) =
       messages v2 @ [\<lparr>role = Assistant, content = str ''Hello''\<rparr>]"
    by (simp_all add: streamChatOnce_stream [where res = "streaming sample_partial" and rest = "[]"
          and b = "\<lparr>chunks = sample_partial, aborted = False\<rparr>", OF 2(3)]
        streaming_def sample_partial_frames Let_def sample_env_fields str_def
        save_and_return_def)
  have 4: "?A 2 2 v2 = (Inr (), 2 + 1, stdout_write [Prompt] (snd (streamChatOnce sample_env v2)))"
    using 3(1) by (intro attempts_ok [where exec = "streamChatOnce sample_env"
          and r = ok_result] lt(3)) (simp_all add: ok_result_def)
  have "?A 0 0 (push ?u ?W) =
      (Inr (), 3, stdout_write [Prompt] (snd (streamChatOnce sample_env v2)))"
    by (simp only: 1(1) [unfolded ar] 2(1) [unfolded ar] 4 [unfolded ar])
  then have run: "askGPTStreamWithRetry sample_env (str ''hi'') ?W =
      (Inr (), 3, stdout_write [Prompt] (snd (streamChatOnce sample_env v2)))"
    by (simp add: askGPTStreamWithRetry_def retry_with_def)
  have m: "messages (snd (snd (askGPTStreamWithRetry sample_env (str ''hi'') ?W))) =
      [?u, \<lparr>role = Assistant, content = str ''Hello''\<rparr>]"
    by (simp only: run) (simp add: 3(2) 2(2) 1(2) no_world_def)
  from single_user_append [of sample_env "str ''hi''" ?W]
  have "length (filter (\<lambda>m. role m = User)
      (messages (snd (snd (askGPTStreamWithRetry sample_env (str ''hi'') ?W))))) = 1"
    by (simp add: no_world_def)
  with m run show ?thesis by simp
qed

section \<open>Which failures are retried\<close>

text \<open>
  C8. A failed attempt with status \<open>s\<close> is retriable exactly when \<open>s\<close> is 429 or at
  least 500. With any other status the loop reports the failure and returns at that
  attempt; with such a status, and an attempt left, it calls the executor again.
\<close>

theorem failure_classification:
  assumes "attempt \<le> MAX_RETRIES" and "exec w = (Inr r, w1)" and "\<not> ok r"
    and "status r = Some s"
  shows "isRetriable s = (s = 429 \<or> 500 \<le> s)
     \<and> (if s = 429 \<or> 500 \<le> s
        then attempt < MAX_RETRIES \<longrightarrow>
               calls + 1 < fst (snd (attempts exec e attempt calls w))
        else attempts exec e attempt calls w = (Inr (), calls + 1, report_failure e r s w1))"
proof -
  have c: "isRetriable s = (s = 429 \<or> 500 \<le> s)"
    by (simp add: isRetriable_def TRANSIENT_CODES_def)
  from assms(4) have s: "status_or_0 r = s" by (simp add: status_or_0_def)
  show ?thesis
  proof (cases "s = 429 \<or> 500 \<le> s")
    case True
    have "calls + 1 < fst (snd (attempts exec e attempt calls w))" if lt: "attempt < MAX_RETRIES"
    proof -
      let ?w = "sleep (BASE_DELAY_MS * 2 ^ attempt)
          (console_error (TransientError (status_or_0 r) (BASE_DELAY_MS * 2 ^ attempt)) w1)"
      from True c s have "isRetriable (status_or_0 r)" by simp
      from attempts_retry [where exec = exec and w = w, OF lt assms(2,3) this]
      have "attempts exec e attempt calls w = attempts exec e (attempt + 1) (calls + 1) ?w" .
      moreover from lt have "attempt + 1 \<le> MAX_RETRIES" by simp
      from attempts_calls_bounds [OF this, of "calls + 1" exec e ?w]
      have "calls + 1 < fst (snd (attempts exec e (attempt + 1) (calls + 1) ?w))" by simp
      ultimately show ?thesis by simp
    qed
    with True c show ?thesis by simp
  next
    case False
    with c s have "\<not> isRetriable (status_or_0 r)" by simp
    from attempts_fatal [where exec = exec and w = w, OF assms(1,2,3) this] False c s
    show ?thesis by simp
  qed
qed

theorem failure_classification_witness:
  "\<not> isRetriable 400
   \<and> attempts (streamChatOnce sample_env) sample_env 0 0
        (no_world\<lparr>network := [Response (failing 400)]\<rparr>) =
       (Inr (), 1,
        report_failure sample_env
          \<lparr>ok = False, status = Some 400, errorText = Some (str ''busy'')\<rparr> 400
          (no_world\<lparr>requests := [[]]\<rparr>))
   \<and> isRetriable 503
   \<and> 1 < fst (snd (attempts (streamChatOnce sample_env) sample_env 0 0
        (no_world\<lparr>network := [Response (failing 503)]\<rparr>)))"
  using
    failure_classification [of 0 "streamChatOnce sample_env"
      "no_world\<lparr>network := [Response (failing 400)]\<rparr>"
      "\<lparr>ok = False, status = Some 400, errorText = Some (str ''busy'')\<rparr>"
      "no_world\<lparr>requests := [[]]\<rparr>" 400 0 sample_env]
    failure_classification [of 0 "streamChatOnce sample_env"
      "no_world\<lparr>network := [Response (failing 503)]\<rparr>"
      "\<lparr>ok = False, status = Some 503, errorText = Some (str ''busy'')\<rparr>"
      "no_world\<lparr>requests := [[]]\<rparr>" 503 0 sample_env]
  by (simp add: streamChatOnce_def failure_simps MAX_RETRIES_def sample_env_fields Let_def)

section \<open>A failure without status\<close>

text \<open>
  C10. When the executor's result has \<open>ok\<close> false and no \<open>status\<close>, the loop takes the
  status to be 0, which is not retriable: the run calls the executor once, reports
  \<open>Request failed (status 0)\<close> and returns, without sleeping. (\<open>streamChatOnce\<close> itself
  gives a status with every failure; the loop is stated for any executor.)
\<close>

theorem absent_status_is_fatal:
  assumes "exec (push \<lparr>role = User, content = userText\<rparr> w) = (Inr r, w1)"
    and "\<not> ok r" and "status r = None"
  shows "status_or_0 r = 0 \<and> \<not> isRetriable 0
     \<and> retry_with exec e userText w = (Inr (), 1, report_failure e r 0 w1)
     \<and> RequestFailed 0 \<in> set (stderr (report_failure e r 0 w1))
     \<and> sleeps (report_failure e r 0 w1) = sleeps w1"
proof -
  from assms(3) have s: "status_or_0 r = 0" by (simp add: status_or_0_def)
  have n: "\<not> isRetriable 0" by (simp add: isRetriable_def TRANSIENT_CODES_def)
  with s have "\<not> isRetriable (status_or_0 r)" by simp
  from attempts_fatal [where exec = exec and w = "push \<lparr>role = User, content = userText\<rparr> w"
      and attempt = 0 and e = e and calls = 0, OF _ assms(1,2) this] s
  have "retry_with exec e userText w = (Inr (), 1, report_failure e r 0 w1)"
    by (simp add: retry_with_def)
  with s n show ?thesis by simp
qed

theorem absent_status_is_fatal_witness:
  "retry_with (\<lambda>w. (Inr \<lparr>ok = False, status = None, errorText = None\<rparr>, w)) sample_env
      (str ''hi'') no_world =
     (Inr (), 1,
      no_world\<lparr>messages := [\<lparr>role = User, content = str ''hi''\<rparr>],
               stderr := [RequestFailed 0], stdout := [Prompt]\<rparr>)
   \<and> \<not> isRetriable 0"
  using absent_status_is_fatal [of "\<lambda>w. (Inr \<lparr>ok = False, status = None, errorText = None\<rparr>, w)"
      "str ''hi''" no_world "\<lparr>ok = False, status = None, errorText = None\<rparr>"
      "push \<lparr>role = User, content = str ''hi''\<rparr> no_world" sample_env]
  by (simp add: report_failure_def console_error_def stdout_write_def push_def no_world_def
      sample_env_fields)

end
